theory Spec2Isabelle
  imports Main "HOL-Library.Sublist"
begin

section \<open>Values of the transcript: decoded JSON\<close>

text \<open>
  A record of the transcript is whatever \<^verbatim>\<open>json.loads\<close> returns for one line: \<^verbatim>\<open>None\<close>,
  a boolean, an integer, a string, a list or a dict with string keys. A dict is an
  association list in insertion order; a lookup takes the first binding of a key (a Python
  dict has one binding for each key). Strings are lists of characters, one \<open>char\<close> for
  each code point, over the Latin-1 repertoire (code points below 256). Numbers with a
  fraction or an exponent decode to floating point values, which are not part of the model.
  The integers of a record are those the decoder returns, of at most 4300 digits, so that
  \<^verbatim>\<open>str\<close> prints every one of them.
\<close>

datatype json =
    JNull
  | JBool bool
  | JInt int
  | JStr string
  | JList "json list"
  | JDict "(string \<times> json) list"

datatype py_error =
    AttributeError
  | TypeError
  | JSONDecodeError
  | ValueError
  | RecursionError
  | OSError

type_synonym 'a result = "py_error + 'a"

subsection \<open>Python's built-in operations on these values\<close>

text \<open>\<^verbatim>\<open>d.get(k, default)\<close> on a dict.\<close>

definition dict_get :: "(string \<times> json) list \<Rightarrow> string \<Rightarrow> json \<Rightarrow> json" where
  "dict_get d k dflt = (case map_of d k of Some v \<Rightarrow> v | None \<Rightarrow> dflt)"

text \<open>\<^verbatim>\<open>k in d\<close> on a dict.\<close>

definition dict_has :: "(string \<times> json) list \<Rightarrow> string \<Rightarrow> bool" where
  "dict_has d k = (map_of d k \<noteq> None)"

text \<open>Truth value of an object in a condition (\<^verbatim>\<open>if x:\<close>).\<close>

fun py_truthy :: "json \<Rightarrow> bool" where
  "py_truthy JNull = False"
| "py_truthy (JBool b) = b"
| "py_truthy (JInt i) = (i \<noteq> 0)"
| "py_truthy (JStr s) = (s \<noteq> [])"
| "py_truthy (JList xs) = (xs \<noteq> [])"
| "py_truthy (JDict d) = (d \<noteq> [])"

text \<open>
  \<^verbatim>\<open>x == y\<close>. Booleans compare as the integers 0 and 1; lists compare element by element;
  dicts compare as finite maps, whatever the insertion order.
\<close>

fun py_eq :: "json \<Rightarrow> json \<Rightarrow> bool" where
  "py_eq JNull y = (y = JNull)"
| "py_eq (JBool a) y =
     (case y of JBool b \<Rightarrow> a = b | JInt j \<Rightarrow> (if a then 1 else 0) = j | _ \<Rightarrow> False)"
| "py_eq (JInt i) y =
     (case y of JBool b \<Rightarrow> i = (if b then 1 else 0) | JInt j \<Rightarrow> i = j | _ \<Rightarrow> False)"
| "py_eq (JStr s) y = (y = JStr s)"
| "py_eq (JList xs) y = (case y of JList ys \<Rightarrow> list_all2 py_eq xs ys | _ \<Rightarrow> False)"
| "py_eq (JDict a) y =
     (case y of
        JDict b \<Rightarrow>
          set (map fst a) = set (map fst b) \<and>
          (\<forall>(k, v) \<in> set a. \<forall>(k', w) \<in> set b.
             k = k' \<and> map_of a k = Some v \<and> map_of b k' = Some w \<longrightarrow> py_eq v w)
      | _ \<Rightarrow> False)"

text \<open>\<^verbatim>\<open>x in xs\<close> on a list: some element equals \<open>x\<close>.\<close>

definition py_in :: "json \<Rightarrow> json list \<Rightarrow> bool" where
  "py_in x xs = (\<exists>e \<in> set xs. py_eq e x)"

text \<open>Lists and dicts are unhashable: \<^verbatim>\<open>set(...)\<close> raises \<^verbatim>\<open>TypeError\<close> on them.\<close>

fun py_hashable :: "json \<Rightarrow> bool" where
  "py_hashable (JList xs) = False"
| "py_hashable (JDict d) = False"
| "py_hashable v = True"

subsection \<open>Strings\<close>

text \<open>\<^verbatim>\<open>c.isspace()\<close> for a code point below 256.\<close>

definition py_isspace :: "char \<Rightarrow> bool" where
  "py_isspace c =
     ((of_char c :: nat) \<in> {9, 10, 11, 12, 13, 28, 29, 30, 31, 32, 133, 160})"

text \<open>\<^verbatim>\<open>s.strip()\<close>: leading and trailing whitespace removed.\<close>

definition py_strip :: "string \<Rightarrow> string" where
  "py_strip s = rev (dropWhile py_isspace (rev (dropWhile py_isspace s)))"

text \<open>
  \<^verbatim>\<open>s.lower()\<close>, character by character: the letters A to Z and the upper-case letters
  of Latin-1 (0xC0 to 0xDE but the multiplication sign 0xD7) move up by 32.
\<close>

definition py_lower_char :: "char \<Rightarrow> char" where
  "py_lower_char c =
     (let n = (of_char c :: nat)
      in if (65 \<le> n \<and> n \<le> 90) \<or> (192 \<le> n \<and> n \<le> 222 \<and> n \<noteq> 215)
         then char_of (n + 32) else c)"

definition py_lower :: "string \<Rightarrow> string" where
  "py_lower s = map py_lower_char s"

text \<open>\<^verbatim>\<open>sub in s\<close> on strings: \<open>sub\<close> occurs in \<open>s\<close> as a contiguous block.\<close>

fun starts_with :: "string \<Rightarrow> string \<Rightarrow> bool" where
  "starts_with s [] = True"
| "starts_with [] (p # ps) = False"
| "starts_with (c # cs) (p # ps) = (c = p \<and> starts_with cs ps)"

fun py_substr :: "string \<Rightarrow> string \<Rightarrow> bool" where
  "py_substr sub [] = (sub = [])"
| "py_substr sub (c # cs) = (starts_with (c # cs) sub \<or> py_substr sub cs)"

text \<open>\<^verbatim>\<open>sep.join(xs)\<close> on a list of strings.\<close>

fun py_join :: "string \<Rightarrow> string list \<Rightarrow> string" where
  "py_join sep [] = []"
| "py_join sep [x] = x"
| "py_join sep (x # y # ys) = x @ sep @ py_join sep (y # ys)"

text \<open>\<^verbatim>\<open>s.replace(a, b)\<close> for a single character \<open>a\<close>.\<close>

definition py_replace_char :: "char \<Rightarrow> char \<Rightarrow> string \<Rightarrow> string" where
  "py_replace_char a b s = map (\<lambda>c. if c = a then b else c) s"

text \<open>Decimal numerals, as \<^verbatim>\<open>str\<close> prints an integer.\<close>

definition digit_char :: "nat \<Rightarrow> char" where
  "digit_char n = ''0123456789'' ! (n mod 10)"

fun show_nat :: "nat \<Rightarrow> string" where
  "show_nat n = (if n < 10 then [digit_char n] else show_nat (n div 10) @ [digit_char n])"

definition show_int :: "int \<Rightarrow> string" where
  "show_int i = (if i < 0 then CHR ''-'' # show_nat (nat (- i)) else show_nat (nat i))"

text \<open>
  \<^verbatim>\<open>repr(s)\<close> of a string: single quotes unless the string has a single quote and no
  double quote; the backslash and the chosen quote are escaped, tab, newline and carriage
  return are written \<^verbatim>\<open>\t\<close>, \<^verbatim>\<open>\n\<close>, \<^verbatim>\<open>\r\<close>, and every other code point that is
  not printable is written \<^verbatim>\<open>\xNN\<close>.
\<close>

definition hex_digit :: "nat \<Rightarrow> char" where
  "hex_digit n = ''0123456789abcdef'' ! (n mod 16)"

definition py_printable :: "char \<Rightarrow> bool" where
  "py_printable c =
     (let n = (of_char c :: nat) in (32 \<le> n \<and> n < 127) \<or> (161 \<le> n \<and> n \<noteq> 173))"

definition repr_char :: "char \<Rightarrow> char \<Rightarrow> string" where
  "repr_char q c =
     (if c = q \<or> c = CHR 0x5C then [CHR 0x5C, c]
      else if c = CHR 0x09 then [CHR 0x5C, CHR ''t'']
      else if c = CHR 0x0A then [CHR 0x5C, CHR ''n'']
      else if c = CHR 0x0D then [CHR 0x5C, CHR ''r'']
      else if py_printable c then [c]
      else [CHR 0x5C, CHR ''x'',
            hex_digit ((of_char c :: nat) div 16), hex_digit (of_char c :: nat)])"

definition repr_str :: "string \<Rightarrow> string" where
  "repr_str s =
     (let q = (if CHR 0x27 \<in> set s \<and> CHR 0x22 \<notin> set s then CHR 0x22 else CHR 0x27)
      in q # concat (map (repr_char q) s) @ [q])"

text \<open>\<^verbatim>\<open>repr(x)\<close> and \<^verbatim>\<open>str(x)\<close>; they differ on strings only.\<close>

fun py_repr :: "json \<Rightarrow> string" where
  "py_repr JNull = ''None''"
| "py_repr (JBool b) = (if b then ''True'' else ''False'')"
| "py_repr (JInt i) = show_int i"
| "py_repr (JStr s) = repr_str s"
| "py_repr (JList xs) = ''['' @ py_join '', '' (map py_repr xs) @ '']''"
| "py_repr (JDict d) =
     ''{'' @ py_join '', '' (map (\<lambda>(k, v). repr_str k @ '': '' @ py_repr v) d) @ ''}''"

definition py_str :: "json \<Rightarrow> string" where
  "py_str x = (case x of JStr s \<Rightarrow> s | _ \<Rightarrow> py_repr x)"

section \<open>The session facts and their extraction\<close>

text \<open>
  The dict \<^verbatim>\<open>info\<close> of \<^verbatim>\<open>extract_session_info\<close>. Prompts and error excerpts are strings
  by construction; tool names, paths and commands are whatever values the records carry.
\<close>

record session_info =
  user_prompts :: "string list"
  tools_used :: "json list"
  files_modified :: "json list"
  files_created :: "json list"
  files_read :: "json list"
  commands_run :: "json list"
  errors_encountered :: "string list"
  total_messages :: nat

text \<open>\<^verbatim>\<open>s[:n] + "..." if len(s) > n else s\<close> on a string.\<close>

definition truncate_to :: "nat \<Rightarrow> string \<Rightarrow> string" where
  "truncate_to n s = (if length s > n then take n s @ ''...'' else s)"

text \<open>
  The same expression on the value of a \<^verbatim>\<open>command\<close> field, which need not be a string:
  \<^verbatim>\<open>len\<close> raises \<^verbatim>\<open>TypeError\<close> on a number or a boolean; a list or a dict of more than
  100 entries is sliced and added to a string, which raises as well (the slice of a dict
  is a \<^verbatim>\<open>KeyError\<close> from Python 3.12 on; the model writes \<^verbatim>\<open>TypeError\<close> for both); a
  shorter list or dict is kept as it is.
\<close>

fun truncate_command :: "json \<Rightarrow> json result" where
  "truncate_command (JStr s) = Inr (JStr (truncate_to 100 s))"
| "truncate_command (JList xs) = (if length xs > 100 then Inl TypeError else Inr (JList xs))"
| "truncate_command (JDict d) =
     (if length (remdups (map fst d)) > 100 then Inl TypeError else Inr (JDict d))"
| "truncate_command v = Inl TypeError"

text \<open>\<^verbatim>\<open>if x not in xs: xs.append(x)\<close>.\<close>

definition add_unique :: "json \<Rightarrow> json list \<Rightarrow> json list" where
  "add_unique x xs = (if py_in x xs then xs else xs @ [x])"

text \<open>The three rules of the loop body, for a record that is a dict \<open>d\<close>.\<close>

definition prompt_rule :: "(string \<times> json) list \<Rightarrow> session_info \<Rightarrow> session_info" where
  "prompt_rule d info =
     (let msg_type = dict_get d ''type'' (JStr [])
      in if py_eq msg_type (JStr ''human'') \<or> py_eq (dict_get d ''role'' JNull) (JStr ''user'')
         then (case dict_get d ''content'' (dict_get d ''message'' (JStr [])) of
                 JStr content \<Rightarrow>
                   if py_strip content \<noteq> []
                   then info\<lparr>user_prompts := user_prompts info @ [truncate_to 200 content]\<rparr>
                   else info
               | _ \<Rightarrow> info)
         else info)"

definition track_file :: "json \<Rightarrow> json \<Rightarrow> session_info \<Rightarrow> session_info" where
  "track_file tool_name file_path info =
     (if py_truthy file_path
      then if py_in tool_name [JStr ''Write'', JStr ''Edit'', JStr ''MultiEdit'']
           then info\<lparr>files_modified := add_unique file_path (files_modified info)\<rparr>
           else if py_eq tool_name (JStr ''Read'')
           then info\<lparr>files_read := add_unique file_path (files_read info)\<rparr>
           else info
      else info)"

definition track_command ::
  "json \<Rightarrow> (string \<times> json) list \<Rightarrow> session_info \<Rightarrow> session_info result" where
  "track_command tool_name tool_input info =
     (if py_eq tool_name (JStr ''Bash'')
      then (let command = dict_get tool_input ''command'' (JStr [])
            in if py_truthy command
               then (case truncate_command command of
                       Inl e \<Rightarrow> Inl e
                     | Inr cmd \<Rightarrow> Inr (info\<lparr>commands_run := commands_run info @ [cmd]\<rparr>))
               else Inr info)
      else Inr info)"

definition tool_rule :: "(string \<times> json) list \<Rightarrow> session_info \<Rightarrow> session_info result" where
  "tool_rule d info =
     (let msg_type = dict_get d ''type'' (JStr [])
      in if py_eq msg_type (JStr ''tool_use'') \<or> dict_has d ''tool''
         then (let tool_name = dict_get d ''name'' (dict_get d ''tool'' (JStr []))
               in if py_truthy tool_name
                  then (let info1 = info\<lparr>tools_used := add_unique tool_name (tools_used info)\<rparr>
                        in case dict_get d ''input'' (JDict []) of
                             JDict tool_input \<Rightarrow>
                               (let file_path =
                                      dict_get tool_input ''file_path''
                                        (dict_get tool_input ''path'' (JStr []))
                                in track_command tool_name tool_input
                                     (track_file tool_name file_path info1))
                           | _ \<Rightarrow> Inr info1)
                  else Inr info)
         else Inr info)"

definition error_rule :: "(string \<times> json) list \<Rightarrow> session_info \<Rightarrow> session_info" where
  "error_rule d info =
     (let msg_type = dict_get d ''type'' (JStr [])
      in if py_eq msg_type (JStr ''tool_result'') \<or>
            py_substr ''error'' (py_lower (py_str (JDict d)))
         then (let content = py_str (dict_get d ''content'' (dict_get d ''output'' (JStr [])))
               in if py_substr ''error'' (py_lower content) \<or>
                     py_substr ''failed'' (py_lower content)
                  then info\<lparr>errors_encountered :=
                              errors_encountered info @ [truncate_to 150 content]\<rparr>
                  else info)
         else info)"

text \<open>
  One turn of the loop. \<^verbatim>\<open>msg.get\<close> exists on a dict only: any other record raises
  \<^verbatim>\<open>AttributeError\<close> at the first line of the body.
\<close>

fun step :: "session_info \<Rightarrow> json \<Rightarrow> session_info result" where
  "step info (JDict d) =
     (case tool_rule d (prompt_rule d info) of
        Inl e \<Rightarrow> Inl e
      | Inr info' \<Rightarrow> Inr (error_rule d info'))"
| "step info v = Inl AttributeError"

fun loop :: "session_info \<Rightarrow> json list \<Rightarrow> session_info result" where
  "loop info [] = Inr info"
| "loop info (msg # msgs) =
     (case step info msg of Inl e \<Rightarrow> Inl e | Inr info' \<Rightarrow> loop info' msgs)"

text \<open>
  \<^verbatim>\<open>list(set(xs))\<close>. Building the set raises \<^verbatim>\<open>TypeError\<close> on an unhashable element and
  keeps the first of equal elements. The order in which a set is iterated is not fixed by
  the language (it follows the hashes, which change from one run to the next for
  strings): the model takes it from a ranking \<open>rank\<close> of the values, a parameter, and
  lists the elements by rank, equal ranks in insertion order. Every order of the elements
  is the order of some ranking.
\<close>

definition list_of_set :: "(json \<Rightarrow> nat) \<Rightarrow> json list \<Rightarrow> json list result" where
  "list_of_set rank xs =
     (if list_all py_hashable xs
      then Inr (sort_key rank (foldl (\<lambda>acc x. add_unique x acc) [] xs))
      else Inl TypeError)"

definition initial_info :: "json list \<Rightarrow> session_info" where
  "initial_info messages =
     \<lparr>user_prompts = [], tools_used = [], files_modified = [], files_created = [],
      files_read = [], commands_run = [], errors_encountered = [],
      total_messages = length messages\<rparr>"

definition deduplicate_and_limit ::
  "(json \<Rightarrow> nat) \<Rightarrow> session_info \<Rightarrow> session_info result" where
  "deduplicate_and_limit rank info =
     (case list_of_set rank (files_modified info) of
        Inl e \<Rightarrow> Inl e
      | Inr fm \<Rightarrow>
          (case list_of_set rank (files_read info) of
             Inl e \<Rightarrow> Inl e
           | Inr fr \<Rightarrow>
               Inr (info\<lparr>files_modified := take 20 fm,
                         files_read := take 20 fr,
                         commands_run := take 15 (commands_run info),
                         errors_encountered := take 10 (errors_encountered info)\<rparr>)))"

definition extract_session_info :: "(json \<Rightarrow> nat) \<Rightarrow> json list \<Rightarrow> session_info result" where
  "extract_session_info rank messages =
     (case loop (initial_info messages) messages of
        Inl e \<Rightarrow> Inl e
      | Inr info \<Rightarrow> deduplicate_and_limit rank info)"

section \<open>Files, the decoder and the encoder\<close>

text \<open>
  A file system maps what \<^verbatim>\<open>open\<close> and \<^verbatim>\<open>os.path.exists\<close> accept, a string path or an
  integer file descriptor, to the text of the file; directories are not files. The
  decoder \<^verbatim>\<open>json.loads\<close> is a parameter of the model: it returns the decoded value or the
  exception it raises (\<^verbatim>\<open>JSONDecodeError\<close> for a text that is not JSON; CPython also raises
  \<^verbatim>\<open>ValueError\<close> on an integer literal of more than 4300 digits and \<^verbatim>\<open>RecursionError\<close>
  on deep nesting).
\<close>

type_synonym file_system = "json \<Rightarrow> string option"

type_synonym decoder = "string \<Rightarrow> json result"

text \<open>
  The lines a text file yields when it is iterated, without their line ends. A line end
  is a newline or a carriage return; the empty lines this makes of \<^verbatim>\<open>\r\n\<close> and of the
  end of the text are blank, and the reader skips blank lines.
\<close>

fun file_lines :: "string \<Rightarrow> string list" where
  "file_lines [] = [[]]"
| "file_lines (c # cs) =
     (if c = CHR 0x0A \<or> c = CHR 0x0D then [] # file_lines cs
      else (case file_lines cs of [] \<Rightarrow> [[c]] | l # ls \<Rightarrow> (c # l) # ls))"

text \<open>\<^verbatim>\<open>open(path, 'r')\<close>: the text of the file, or the exception.\<close>

fun open_read :: "file_system \<Rightarrow> json \<Rightarrow> string result" where
  "open_read fs (JStr p) = (case fs (JStr p) of None \<Rightarrow> Inl OSError | Some text \<Rightarrow> Inr text)"
| "open_read fs (JInt n) = (case fs (JInt n) of None \<Rightarrow> Inl OSError | Some text \<Rightarrow> Inr text)"
| "open_read fs (JBool b) =
     (case fs (JInt (if b then 1 else 0)) of None \<Rightarrow> Inl OSError | Some text \<Rightarrow> Inr text)"
| "open_read fs v = Inl TypeError"

text \<open>
  The loop of \<^verbatim>\<open>parse_transcript\<close> over the lines: a blank line is skipped, a
  \<^verbatim>\<open>JSONDecodeError\<close> is caught inside the loop, and any other exception leaves the loop
  for the outer handler, which returns the messages gathered so far.
\<close>

fun parse_lines :: "decoder \<Rightarrow> json list \<Rightarrow> string list \<Rightarrow> json list" where
  "parse_lines loads messages [] = messages"
| "parse_lines loads messages (l # ls) =
     (let line = py_strip l
      in if line \<noteq> []
         then (case loads line of
                 Inr v \<Rightarrow> parse_lines loads (messages @ [v]) ls
               | Inl e \<Rightarrow>
                   if e = JSONDecodeError then parse_lines loads messages ls else messages)
         else parse_lines loads messages ls)"

definition parse_transcript :: "decoder \<Rightarrow> file_system \<Rightarrow> json \<Rightarrow> json list" where
  "parse_transcript loads fs transcript_path =
     (case open_read fs transcript_path of
        Inl e \<Rightarrow> []
      | Inr text \<Rightarrow> parse_lines loads [] (file_lines text))"

text \<open>
  The reader of the specification: a line is blank when nothing is left after stripping;
  a line parses when the decoder returns a value for the stripped line; a line stops the
  read when the decoder raises something other than \<^verbatim>\<open>JSONDecodeError\<close> on it.
\<close>

definition line_record :: "decoder \<Rightarrow> string \<Rightarrow> json option" where
  "line_record loads l =
     (if py_strip l = [] then None
      else (case loads (py_strip l) of Inr v \<Rightarrow> Some v | Inl e \<Rightarrow> None))"

definition line_stops :: "decoder \<Rightarrow> string \<Rightarrow> bool" where
  "line_stops loads l =
     (py_strip l \<noteq> [] \<and>
      (case loads (py_strip l) of Inr v \<Rightarrow> False | Inl e \<Rightarrow> e \<noteq> JSONDecodeError))"

section \<open>The report\<close>

text \<open>
  \<^verbatim>\<open>generate_summary\<close>. The time stamp \<^verbatim>\<open>datetime.now().strftime(...)\<close> is read from the
  clock: it is the parameter \<open>now\<close>. The three pictograms of the report lie outside
  Latin-1; they stand here as their UTF-8 bytes. A value that is not a string is formatted
  by \<^verbatim>\<open>str\<close>; \<^verbatim>\<open>', '.join\<close> raises \<^verbatim>\<open>TypeError\<close> on a list with an element that is
  not a string.
\<close>

definition banner :: string where
  "banner = replicate 60 CHR ''=''"

definition pencil :: string where
  "pencil = [CHR 0xE2, CHR 0x9C, CHR 0x8F, CHR 0xEF, CHR 0xB8, CHR 0x8F]"

definition warning_sign :: string where
  "warning_sign = [CHR 0xE2, CHR 0x9A, CHR 0xA0, CHR 0xEF, CHR 0xB8, CHR 0x8F]"

definition bullet :: string where
  "bullet = [CHR 0xE2, CHR 0x80, CHR 0xA2]"

definition join_values :: "string \<Rightarrow> json list \<Rightarrow> string result" where
  "join_values sep xs =
     (if list_all (\<lambda>x. case x of JStr s \<Rightarrow> True | _ \<Rightarrow> False) xs
      then Inr (py_join sep (map py_str xs))
      else Inl TypeError)"

definition requested_section :: "session_info \<Rightarrow> string list" where
  "requested_section info =
     (if user_prompts info \<noteq> []
      then [''## What Was Requested''] @
           map (\<lambda>(i, prompt). ''  '' @ show_nat i @ ''. '' @
                                py_strip (py_replace_char CHR 0x0A CHR '' '' prompt))
               (zip [1 ..< 6] (take 5 (user_prompts info))) @
           (if length (user_prompts info) > 5
            then [''  ... and '' @ show_nat (length (user_prompts info) - 5) @ '' more prompts'']
            else []) @
           ['''']
      else [])"

definition modified_section :: "session_info \<Rightarrow> string list" where
  "modified_section info =
     (if files_modified info \<noteq> []
      then [''## Files Modified''] @
           map (\<lambda>f. ''  '' @ pencil @ ''  '' @ py_str f) (take 10 (files_modified info)) @
           (if length (files_modified info) > 10
            then [''  ... and '' @ show_nat (length (files_modified info) - 10) @ '' more files'']
            else []) @
           ['''']
      else [])"

definition tools_section :: "session_info \<Rightarrow> string list result" where
  "tools_section info =
     (if tools_used info \<noteq> []
      then (case join_values '', '' (tools_used info) of
              Inl e \<Rightarrow> Inl e
            | Inr names \<Rightarrow> Inr [''## Tools Used'', ''  '' @ names, ''''])
      else Inr [])"

definition commands_section :: "session_info \<Rightarrow> string list" where
  "commands_section info =
     (if commands_run info \<noteq> []
      then [''## Commands Executed''] @
           map (\<lambda>cmd. ''  $ '' @ py_str cmd) (take 5 (commands_run info)) @
           (if length (commands_run info) > 5
            then [''  ... and '' @ show_nat (length (commands_run info) - 5) @ '' more commands'']
            else []) @
           ['''']
      else [])"

definition errors_section :: "session_info \<Rightarrow> string list" where
  "errors_section info =
     (if errors_encountered info \<noteq> []
      then [''## Errors Encountered''] @
           map (\<lambda>err. ''  '' @ warning_sign @ ''  '' @ take 100 err)
               (take 3 (errors_encountered info)) @
           ['''']
      else [])"

definition statistics_section :: "session_info \<Rightarrow> string list" where
  "statistics_section info =
     [''## Statistics'',
      ''  '' @ bullet @ '' Total messages: '' @ show_nat (total_messages info),
      ''  '' @ bullet @ '' Files modified: '' @ show_nat (length (files_modified info)),
      ''  '' @ bullet @ '' Files read: '' @ show_nat (length (files_read info)),
      ''  '' @ bullet @ '' Commands run: '' @ show_nat (length (commands_run info)),
      '''']"

definition summary_lines :: "string \<Rightarrow> session_info \<Rightarrow> string list result" where
  "summary_lines now info =
     (case tools_section info of
        Inl e \<Rightarrow> Inl e
      | Inr tools \<Rightarrow>
          Inr ([banner, ''SESSION SUMMARY'', banner, ''Generated: '' @ now, ''''] @
               requested_section info @ modified_section info @ tools @
               commands_section info @ errors_section info @ statistics_section info @
               [banner]))"

definition generate_summary :: "string \<Rightarrow> session_info \<Rightarrow> string result" where
  "generate_summary now info =
     (case summary_lines now info of
        Inl e \<Rightarrow> Inl e
      | Inr summary \<Rightarrow> Inr (py_join [CHR 0x0A] summary))"

definition report_head :: string where
  "report_head =
     banner @ [CHR 0x0A] @ ''SESSION SUMMARY'' @ [CHR 0x0A] @ banner @ [CHR 0x0A] @ ''Generated: ''"

text \<open>
  The encoder \<^verbatim>\<open>json.dump(value, f, indent=2)\<close>: items one to a line, indented by two
  spaces for each level; an empty list or dict on one line; in a string the quote, the
  backslash and the control characters are escaped, and every other character outside
  the printable ASCII range is written \<^verbatim>\<open>\u00XX\<close>.
\<close>

definition json_escape_char :: "char \<Rightarrow> string" where
  "json_escape_char c =
     (if c = CHR 0x22 then [CHR 0x5C, CHR 0x22]
      else if c = CHR 0x5C then [CHR 0x5C, CHR 0x5C]
      else if c = CHR 0x0A then [CHR 0x5C, CHR ''n'']
      else if c = CHR 0x0D then [CHR 0x5C, CHR ''r'']
      else if c = CHR 0x09 then [CHR 0x5C, CHR ''t'']
      else if c = CHR 0x08 then [CHR 0x5C, CHR ''b'']
      else if c = CHR 0x0C then [CHR 0x5C, CHR ''f'']
      else if 32 \<le> (of_char c :: nat) \<and> (of_char c :: nat) \<le> 126 then [c]
      else [CHR 0x5C, CHR ''u'', CHR ''0'', CHR ''0'',
            hex_digit ((of_char c :: nat) div 16), hex_digit (of_char c :: nat)])"

definition json_string :: "string \<Rightarrow> string" where
  "json_string s = CHR 0x22 # concat (map json_escape_char s) @ [CHR 0x22]"

definition indentation :: "nat \<Rightarrow> string" where
  "indentation level = replicate (2 * level) CHR '' ''"

fun json_dumps_at :: "nat \<Rightarrow> json \<Rightarrow> string" where
  "json_dumps_at level JNull = ''null''"
| "json_dumps_at level (JBool b) = (if b then ''true'' else ''false'')"
| "json_dumps_at level (JInt i) = show_int i"
| "json_dumps_at level (JStr s) = json_string s"
| "json_dumps_at level (JList xs) =
     (if xs = [] then ''[]''
      else ''['' @ [CHR 0x0A] @
           py_join ('','' @ [CHR 0x0A])
             (map (\<lambda>x. indentation (Suc level) @ json_dumps_at (Suc level) x) xs) @
           [CHR 0x0A] @ indentation level @ '']'')"
| "json_dumps_at level (JDict d) =
     (if d = [] then ''{}''
      else ''{'' @ [CHR 0x0A] @
           py_join ('','' @ [CHR 0x0A])
             (map (\<lambda>(k, v). indentation (Suc level) @ json_string k @ '': '' @
                             json_dumps_at (Suc level) v) d) @
           [CHR 0x0A] @ indentation level @ ''}'')"

definition json_dumps :: "json \<Rightarrow> string" where
  "json_dumps v = json_dumps_at 0 v"

section \<open>The hook\<close>

text \<open>
  What \<^verbatim>\<open>main\<close> reads from outside: the decoder, the directory of a session, the clock
  (as \<^verbatim>\<open>generate_summary\<close> and as \<^verbatim>\<open>save_summary\<close> format it) and the order in which sets
  are listed.
\<close>

text \<open>
  Modelled from the spec: \<^verbatim>\<open>ensure_session_log_dir\<close> of \<^verbatim>\<open>utils.constants\<close> is not among the
  sources; given a session identifier it returns a writable directory, which exists or is
  created by it. It is the field \<open>session_log_dir\<close>; directories are not entries of the
  file system.
\<close>

record environment =
  loads :: decoder
  session_log_dir :: "json \<Rightarrow> string"
  clock_text :: string
  clock_iso :: string
  set_rank :: "json \<Rightarrow> nat"

text \<open>The command line, parsed: the flags \<^verbatim>\<open>--chat\<close> and \<^verbatim>\<open>--summary\<close>.\<close>

record arguments =
  chat :: bool
  summary :: bool

text \<open>
  What a run leaves behind: the exit status, the files, the text printed to standard
  output, and the errors reported on the error stream.
\<close>

record outcome =
  exit_status :: nat
  files :: file_system
  printed :: string
  diagnostics :: "py_error list"

text \<open>\<^verbatim>\<open>log_dir / name\<close> on paths.\<close>

definition path_join :: "string \<Rightarrow> string \<Rightarrow> string" where
  "path_join dir name = dir @ ''/'' @ name"

text \<open>\<^verbatim>\<open>os.path.exists\<close>: a list or a dict is not a path and raises \<^verbatim>\<open>TypeError\<close>.\<close>

fun path_exists :: "file_system \<Rightarrow> json \<Rightarrow> bool result" where
  "path_exists fs (JStr p) = Inr (fs (JStr p) \<noteq> None)"
| "path_exists fs (JInt n) = Inr (fs (JInt n) \<noteq> None)"
| "path_exists fs (JBool b) = Inr (fs (JInt (if b then 1 else 0)) \<noteq> None)"
| "path_exists fs v = Inl TypeError"

text \<open>The facts as the dict they are, with its keys in the order of their insertion.\<close>

definition info_json :: "session_info \<Rightarrow> json" where
  "info_json info =
     JDict [(''user_prompts'', JList (map JStr (user_prompts info))),
            (''tools_used'', JList (tools_used info)),
            (''files_modified'', JList (files_modified info)),
            (''files_created'', JList (files_created info)),
            (''files_read'', JList (files_read info)),
            (''commands_run'', JList (commands_run info)),
            (''errors_encountered'', JList (map JStr (errors_encountered info))),
            (''total_messages'', JInt (int (total_messages info)))]"

definition save_summary ::
  "environment \<Rightarrow> string \<Rightarrow> string \<Rightarrow> session_info \<Rightarrow> file_system \<Rightarrow> file_system" where
  "save_summary env log_dir text info fs =
     (fs(JStr (path_join log_dir ''session_summary.txt'') \<mapsto> text))
       (JStr (path_join log_dir ''session_summary.json'') \<mapsto>
          json_dumps (JDict [(''generated_at'', JStr (clock_iso env)),
                             (''info'', info_json info)]))"

text \<open>
  Reading the archive \<^verbatim>\<open>stop.json\<close>: the empty list when the file is absent or its
  decoding raises \<^verbatim>\<open>JSONDecodeError\<close> or \<^verbatim>\<open>ValueError\<close>; \<^verbatim>\<open>append\<close> exists on a list only.
\<close>

definition read_log :: "decoder \<Rightarrow> file_system \<Rightarrow> string \<Rightarrow> json result" where
  "read_log decode fs log_path =
     (case fs (JStr log_path) of
        None \<Rightarrow> Inr (JList [])
      | Some text \<Rightarrow>
          (case decode text of
             Inr v \<Rightarrow> Inr v
           | Inl e \<Rightarrow> if e = JSONDecodeError \<or> e = ValueError then Inr (JList []) else Inl e))"

definition append_entry :: "json \<Rightarrow> json \<Rightarrow> json result" where
  "append_entry log_data entry =
     (case log_data of JList xs \<Rightarrow> Inr (JList (xs @ [entry])) | _ \<Rightarrow> Inl AttributeError)"

text \<open>
  The end of a run: \<^verbatim>\<open>sys.exit(0)\<close> after the work, after a \<^verbatim>\<open>JSONDecodeError\<close> (silently)
  and after any other exception (reported on the error stream).
\<close>

definition finish :: "file_system \<Rightarrow> string \<Rightarrow> py_error option \<Rightarrow> outcome" where
  "finish fs out err =
     \<lparr>exit_status = 0, files = fs, printed = out,
      diagnostics = (case err of
                       None \<Rightarrow> []
                     | Some e \<Rightarrow> if e = JSONDecodeError then [] else [e])\<rparr>"

definition process_transcript ::
  "environment \<Rightarrow> arguments \<Rightarrow> string \<Rightarrow> json \<Rightarrow> file_system \<Rightarrow> outcome" where
  "process_transcript env args log_dir transcript_path fs =
     (if py_truthy transcript_path
      then (case path_exists fs transcript_path of
              Inl e \<Rightarrow> finish fs [] (Some e)
            | Inr found \<Rightarrow>
                if found
                then (let messages = parse_transcript (loads env) fs transcript_path;
                          fs1 = (if chat args \<and> messages \<noteq> []
                                 then fs(JStr (path_join log_dir ''chat.json'') \<mapsto>
                                           json_dumps (JList messages))
                                 else fs)
                      in if summary args \<and> messages \<noteq> []
                         then (case extract_session_info (set_rank env) messages of
                                 Inl e \<Rightarrow> finish fs1 [] (Some e)
                               | Inr info \<Rightarrow>
                                   (case generate_summary (clock_text env) info of
                                      Inl e \<Rightarrow> finish fs1 [] (Some e)
                                    | Inr text \<Rightarrow>
                                        finish (save_summary env log_dir text info fs1)
                                          (CHR 0x0A # text @ [CHR 0x0A]) None))
                         else finish fs1 [] None)
                else finish fs [] None)
      else finish fs [] None)"

definition main :: "environment \<Rightarrow> arguments \<Rightarrow> string \<Rightarrow> file_system \<Rightarrow> outcome" where
  "main env args input fs =
     (case loads env input of
        Inl e \<Rightarrow> finish fs [] (Some e)
      | Inr input_data \<Rightarrow>
          (case input_data of
             JDict d \<Rightarrow>
               (let session_id = dict_get d ''session_id'' (JStr ''unknown'');
                    transcript_path = dict_get d ''transcript_path'' (JStr []);
                    log_dir = session_log_dir env session_id;
                    log_path = path_join log_dir ''stop.json''
                in case read_log (loads env) fs log_path of
                     Inl e \<Rightarrow> finish fs [] (Some e)
                   | Inr log_data \<Rightarrow>
                       (case append_entry log_data input_data of
                          Inl e \<Rightarrow> finish fs [] (Some e)
                        | Inr log_data' \<Rightarrow>
                            process_transcript env args log_dir transcript_path
                              (fs(JStr log_path \<mapsto> json_dumps log_data'))))
           | _ \<Rightarrow> finish fs [] (Some AttributeError)))"


section \<open>The rules of the specification, record by record\<close>

text \<open>
  What one record contributes to each list, written from the rules of the specification
  (prompt detection, tool-use detection, error detection), and the facts of a whole
  transcript built from them. The extraction is compared with these below.
\<close>

definition is_prompt_source :: "(string \<times> json) list \<Rightarrow> bool" where
  "is_prompt_source d =
     (dict_get d ''type'' (JStr []) = JStr ''human'' \<or> dict_get d ''role'' JNull = JStr ''user'')"

definition captured_prompt :: "json \<Rightarrow> string option" where
  "captured_prompt m =
     (case m of
        JDict d \<Rightarrow>
          if is_prompt_source d
          then (case dict_get d ''content'' (dict_get d ''message'' (JStr [])) of
                  JStr s \<Rightarrow> if py_strip s = [] then None else Some s
                | _ \<Rightarrow> None)
          else None
      | _ \<Rightarrow> None)"

definition is_tool_invocation :: "(string \<times> json) list \<Rightarrow> bool" where
  "is_tool_invocation d =
     (dict_get d ''type'' (JStr []) = JStr ''tool_use'' \<or> dict_has d ''tool'')"

definition tool_identifier :: "json \<Rightarrow> json option" where
  "tool_identifier m =
     (case m of
        JDict d \<Rightarrow>
          (let name = dict_get d ''name'' (dict_get d ''tool'' (JStr []))
           in if is_tool_invocation d \<and> py_truthy name then Some name else None)
      | _ \<Rightarrow> None)"

definition tool_input :: "json \<Rightarrow> (string \<times> json) list option" where
  "tool_input m =
     (case m of
        JDict d \<Rightarrow> (case dict_get d ''input'' (JDict []) of JDict i \<Rightarrow> Some i | _ \<Rightarrow> None)
      | _ \<Rightarrow> None)"

definition path_value :: "(string \<times> json) list \<Rightarrow> json" where
  "path_value i = dict_get i ''file_path'' (dict_get i ''path'' (JStr []))"

definition tracked_path :: "string list \<Rightarrow> json \<Rightarrow> json option" where
  "tracked_path tools m =
     (case (tool_identifier m, tool_input m) of
        (Some t, Some i) \<Rightarrow>
          if t \<in> JStr ` set tools \<and> py_truthy (path_value i) then Some (path_value i) else None
      | _ \<Rightarrow> None)"

definition modified_path :: "json \<Rightarrow> json option" where
  "modified_path = tracked_path [''Write'', ''Edit'', ''MultiEdit'']"

definition read_path :: "json \<Rightarrow> json option" where
  "read_path = tracked_path [''Read'']"

definition captured_command :: "json \<Rightarrow> json option" where
  "captured_command m =
     (case (tool_identifier m, tool_input m) of
        (Some t, Some i) \<Rightarrow>
          (let command = dict_get i ''command'' (JStr [])
           in if t = JStr ''Bash'' \<and> py_truthy command then Some command else None)
      | _ \<Rightarrow> None)"

definition command_fits :: "json \<Rightarrow> bool" where
  "command_fits c =
     (case c of
        JStr s \<Rightarrow> True
      | JList xs \<Rightarrow> length xs \<le> 100
      | JDict d \<Rightarrow> length (remdups (map fst d)) \<le> 100
      | _ \<Rightarrow> False)"

definition stored_command :: "json \<Rightarrow> json" where
  "stored_command c = (case c of JStr s \<Rightarrow> JStr (truncate_to 100 s) | _ \<Rightarrow> c)"

definition is_error_source :: "(string \<times> json) list \<Rightarrow> bool" where
  "is_error_source d =
     (dict_get d ''type'' (JStr []) = JStr ''tool_result'' \<or>
      py_substr ''error'' (py_lower (py_str (JDict d))))"

definition captured_error :: "json \<Rightarrow> string option" where
  "captured_error m =
     (case m of
        JDict d \<Rightarrow>
          (let text = py_str (dict_get d ''content'' (dict_get d ''output'' (JStr [])))
           in if is_error_source d \<and>
                 (py_substr ''error'' (py_lower text) \<or> py_substr ''failed'' (py_lower text))
              then Some text else None)
      | _ \<Rightarrow> None)"

fun first_seen :: "json list \<Rightarrow> json list" where
  "first_seen [] = []"
| "first_seen (x # xs) = x # first_seen (filter (\<lambda>y. \<not> py_eq x y) xs)"

definition is_object :: "json \<Rightarrow> bool" where
  "is_object m = (case m of JDict d \<Rightarrow> True | _ \<Rightarrow> False)"

text \<open>
  The facts of a whole transcript: every list is made of the contributions of the single
  records, in the order of the records, and then cut by the post-pass. A record is
  accepted when it is an object, a command captured from it is a string or a list or
  object of at most 100 entries, and a path captured from it is hashable.
\<close>

definition session_facts :: "(json \<Rightarrow> nat) \<Rightarrow> json list \<Rightarrow> session_info" where
  "session_facts rank ms =
     \<lparr>user_prompts = map (truncate_to 200) (List.map_filter captured_prompt ms),
      tools_used = first_seen (List.map_filter tool_identifier ms),
      files_modified = take 20 (sort_key rank (first_seen (List.map_filter modified_path ms))),
      files_created = [],
      files_read = take 20 (sort_key rank (first_seen (List.map_filter read_path ms))),
      commands_run = take 15 (map stored_command (List.map_filter captured_command ms)),
      errors_encountered = take 10 (map (truncate_to 150) (List.map_filter captured_error ms)),
      total_messages = length ms\<rparr>"

definition record_ok :: "json \<Rightarrow> bool" where
  "record_ok m =
     (is_object m \<and>
      (case captured_command m of None \<Rightarrow> True | Some c \<Rightarrow> command_fits c) \<and>
      (case modified_path m of None \<Rightarrow> True | Some p \<Rightarrow> py_hashable p) \<and>
      (case read_path m of None \<Rightarrow> True | Some p \<Rightarrow> py_hashable p))"

text \<open>
  A record of a mutation tool is a tool invocation whose identifier is \<^verbatim>\<open>Write\<close>, \<^verbatim>\<open>Edit\<close>
  or \<^verbatim>\<open>MultiEdit\<close>; it carries the path \<open>p\<close> when its input is an object whose
  \<^verbatim>\<open>file_path\<close> field (or else its \<^verbatim>\<open>path\<close> field) is the string \<open>p\<close>.
\<close>

definition is_mutation :: "json \<Rightarrow> bool" where
  "is_mutation m =
     (tool_identifier m \<in> {Some (JStr ''Write''), Some (JStr ''Edit''), Some (JStr ''MultiEdit'')})"

definition carries_path :: "string \<Rightarrow> json \<Rightarrow> bool" where
  "carries_path p m =
     (case tool_input m of Some i \<Rightarrow> path_value i = JStr p | None \<Rightarrow> False)"

text \<open>The accumulation \<^verbatim>\<open>if x not in xs: xs.append(x)\<close> over a list of values.\<close>

abbreviation add_all :: "json list \<Rightarrow> json list \<Rightarrow> json list" where
  "add_all acc xs \<equiv> foldl (\<lambda>acc x. add_unique x acc) acc xs"

section \<open>Sample transcripts, files and environments\<close>

text \<open>
  Records used to run the extraction on concrete inputs: an edit of the file numbered
  \<open>n\<close> whose record also carries an error text, a shell command numbered \<open>n\<close>, and
  records of the usual shapes.
\<close>

definition edit_record :: "nat \<Rightarrow> json" where
  "edit_record n =
     JDict [(''tool'', JStr ''Edit''), (''input'', JDict [(''path'', JStr (show_nat n))]),
            (''output'', JStr ''error'')]"

definition bash_record :: "nat \<Rightarrow> json" where
  "bash_record n =
     JDict [(''tool'', JStr ''Bash''), (''input'', JDict [(''command'', JStr (show_nat n))])]"

definition write_record :: "string \<Rightarrow> json" where
  "write_record p =
     JDict [(''type'', JStr ''tool_use''), (''name'', JStr ''Write''),
            (''input'', JDict [(''file_path'', JStr p)])]"

definition tool_record :: "string \<Rightarrow> json" where
  "tool_record t = JDict [(''type'', JStr ''tool_use''), (''name'', JStr t)]"

definition prompt_record :: "string \<Rightarrow> json" where
  "prompt_record s = JDict [(''type'', JStr ''human''), (''content'', JStr s)]"

definition command_record :: "string \<Rightarrow> json" where
  "command_record c =
     JDict [(''tool'', JStr ''Bash''), (''input'', JDict [(''command'', JStr c)])]"

definition result_record :: "string \<Rightarrow> json" where
  "result_record s = JDict [(''type'', JStr ''tool_result''), (''content'', JStr s)]"

text \<open>Transcripts made of them.\<close>

definition tools_transcript :: "json list" where
  "tools_transcript =
     [tool_record ''Write'', tool_record ''Bash'', tool_record ''Write'', tool_record ''Read'',
      tool_record ''Bash'']"

definition long_transcript :: "json list" where
  "long_transcript =
     [prompt_record ''fix the build'', prompt_record (replicate 201 CHR ''x''),
      command_record ''ls'', command_record (replicate 101 CHR ''y''),
      result_record ''failed'', result_record (''error '' @ replicate 150 CHR ''z'')]"

text \<open>The record of the build failure, and a shell record whose command is a number.\<close>

definition build_failed_record :: json where
  "build_failed_record =
     JDict [(''type'', JStr ''tool_result''),
            (''content'', JStr ''Build failed: missing semicolon'')]"

definition bad_command_record :: json where
  "bad_command_record =
     JDict [(''tool'', JStr ''Bash''), (''input'', JDict [(''command'', JInt 5)])]"

text \<open>Objects without the fields the rules read.\<close>

definition untyped_transcript :: "json list" where
  "untyped_transcript =
     [JDict [(''type'', JStr ''human'')],
      JDict [(''type'', JStr ''tool_use'')],
      JDict [(''type'', JStr ''tool_use''), (''name'', JStr ''Bash'')],
      JDict [(''type'', JStr ''tool_result'')],
      JDict [(''role'', JStr ''user''), (''message'', JStr ''hello'')]]"

definition edit_path_record :: "string \<Rightarrow> json" where
  "edit_path_record p =
     JDict [(''type'', JStr ''tool_use''), (''name'', JStr ''Edit''),
            (''input'', JDict [(''file_path'', JStr p)])]"

definition blank_prompts_transcript :: "json list" where
  "blank_prompts_transcript =
     [prompt_record '' '', prompt_record '' '', prompt_record '' '',
      write_record ''a.py'', edit_path_record ''a.py'']"

definition read_record :: "string \<Rightarrow> json" where
  "read_record p = JDict [(''tool'', JStr ''Read''), (''input'', JDict [(''path'', JStr p)])]"

definition mixed_transcript :: "json list" where
  "mixed_transcript =
     [prompt_record ''add a test'', read_record ''a.py'', write_record ''a.py'',
      prompt_record ''run it'', command_record ''pytest'', edit_path_record ''a.py'',
      prompt_record ''thanks'']"

text \<open>Facts of a small session, to render.\<close>

definition sample_info :: session_info where
  "sample_info =
     \<lparr>user_prompts = [''add a test''], tools_used = [JStr ''Edit'', JStr ''Bash''],
      files_modified = [JStr ''a.py''], files_created = [], files_read = [],
      commands_run = [JStr ''pytest''], errors_encountered = [''1 failed''],
      total_messages = 7\<rparr>"

text \<open>
  A decoder given by its results on finitely many texts; every other text is rejected.
  It stands for \<^verbatim>\<open>json.loads\<close> on the lines of the examples.
\<close>

definition table_decoder :: "(string \<times> json result) list \<Rightarrow> decoder" where
  "table_decoder table text =
     (case map_of table text of Some r \<Rightarrow> r | None \<Rightarrow> Inl JSONDecodeError)"

text \<open>
  An integer literal of 4301 digits, on which \<^verbatim>\<open>json.loads\<close> raises \<^verbatim>\<open>ValueError\<close>, and
  files that hold it and lines that are not JSON.
\<close>

definition long_integer :: string where
  "long_integer = replicate 4301 CHR ''7''"

definition sample_decoder :: decoder where
  "sample_decoder =
     table_decoder [(''1'', Inr (JInt 1)), (long_integer, Inl ValueError), (''2'', Inr (JInt 2))]"

definition notes_files :: file_system where
  "notes_files =
     (\<lambda>p. if p = JStr ''u.jsonl''
          then Some ([CHR ''1'', CHR 0x0A] @ ''not json'' @ [CHR 0x0A, CHR 0x0A, CHR ''2'', CHR 0x0A])
          else None)"

definition sample_files :: file_system where
  "sample_files =
     (\<lambda>p. if p = JStr ''t.jsonl''
          then Some (''1'' @ [CHR 0x0A] @ long_integer @ [CHR 0x0A] @ ''2'' @ [CHR 0x0A])
          else None)"




section \<open>Properties\<close>

subsection \<open>Each rule writes its own fields only\<close>

lemma prompt_rule_other:
  "tools_used (prompt_rule d i) = tools_used i"
  "files_modified (prompt_rule d i) = files_modified i"
  "files_created (prompt_rule d i) = files_created i"
  "files_read (prompt_rule d i) = files_read i"
  "commands_run (prompt_rule d i) = commands_run i"
  "errors_encountered (prompt_rule d i) = errors_encountered i"
  "total_messages (prompt_rule d i) = total_messages i"
  by (simp_all add: prompt_rule_def Let_def split: json.splits)

lemma error_rule_other:
  "user_prompts (error_rule d i) = user_prompts i"
  "tools_used (error_rule d i) = tools_used i"
  "files_modified (error_rule d i) = files_modified i"
  "files_created (error_rule d i) = files_created i"
  "files_read (error_rule d i) = files_read i"
  "commands_run (error_rule d i) = commands_run i"
  "total_messages (error_rule d i) = total_messages i"
  by (simp_all add: error_rule_def Let_def)

lemma track_file_other:
  "user_prompts (track_file t p i) = user_prompts i"
  "tools_used (track_file t p i) = tools_used i"
  "files_created (track_file t p i) = files_created i"
  "commands_run (track_file t p i) = commands_run i"
  "errors_encountered (track_file t p i) = errors_encountered i"
  "total_messages (track_file t p i) = total_messages i"
  by (simp_all add: track_file_def)

lemma track_command_other:
  assumes "track_command t inp i = Inr i'"
  shows "user_prompts i' = user_prompts i"
    and "tools_used i' = tools_used i"
    and "files_modified i' = files_modified i"
    and "files_created i' = files_created i"
    and "files_read i' = files_read i"
    and "errors_encountered i' = errors_encountered i"
    and "total_messages i' = total_messages i"
  using assms by (auto simp: track_command_def Let_def split: if_splits sum.splits)

lemma tool_rule_other:
  assumes "tool_rule d i = Inr i'"
  shows "user_prompts i' = user_prompts i"
    and "files_created i' = files_created i"
    and "errors_encountered i' = errors_encountered i"
    and "total_messages i' = total_messages i"
  using assms
  by (auto simp: tool_rule_def Let_def track_file_other split: if_splits json.splits
      dest: track_command_other)

lemma step_files_created: "step i m = Inr i' \<Longrightarrow> files_created i' = files_created i"
  by (cases m)
    (auto simp: error_rule_other prompt_rule_other split: sum.splits dest: tool_rule_other)

lemma loop_files_created: "loop i ms = Inr i' \<Longrightarrow> files_created i' = files_created i"
  by (induction ms arbitrary: i) (auto split: sum.splits dest: step_files_created)

subsection \<open>Equality of values\<close>

lemma py_eq_JStr [simp]: "py_eq x (JStr s) = (x = JStr s)"
  by (cases x) auto

lemma py_in_strs: "py_in t (map JStr ss) = (t \<in> JStr ` set ss)"
  by (auto simp: py_in_def)

lemma py_eq_refl: "py_eq x x"
proof (induction x)
  case (JList xs)
  then show ?case by (simp add: list_all2_same)
next
  case (JDict d)
  then show ?case by (fastforce simp: snds.simps)
qed simp_all

subsection \<open>One record, field by field\<close>

lemma step_user_prompts:
  "step i m = Inr i' \<Longrightarrow>
   user_prompts i' = user_prompts i @ map (truncate_to 200) (List.map_filter captured_prompt [m])"
  by (cases m)
     (auto simp: List.map_filter_simps captured_prompt_def is_prompt_source_def prompt_rule_def error_rule_other
         split: sum.splits json.splits dest!: tool_rule_other(1))

lemma step_errors:
  "step i m = Inr i' \<Longrightarrow>
   errors_encountered i' = errors_encountered i @ map (truncate_to 150) (List.map_filter captured_error [m])"
  by (cases m)
     (auto simp: List.map_filter_simps captured_error_def is_error_source_def error_rule_def Let_def prompt_rule_other
         split: sum.splits  dest!: tool_rule_other(3))

lemma tool_rule_no_id:
  "tool_identifier (JDict d) = None \<Longrightarrow> tool_rule d i = Inr i"
  by (auto simp: tool_identifier_def tool_rule_def is_tool_invocation_def Let_def split: if_splits)

lemma tool_rule_no_input:
  "tool_identifier (JDict d) = Some t \<Longrightarrow> tool_input (JDict d) = None \<Longrightarrow>
   tool_rule d i = Inr (i\<lparr>tools_used := add_unique t (tools_used i)\<rparr>)"
  by (auto simp: tool_identifier_def tool_rule_def tool_input_def is_tool_invocation_def Let_def
      split: if_splits json.splits)

lemma tool_rule_input:
  "tool_identifier (JDict d) = Some t \<Longrightarrow> tool_input (JDict d) = Some inp \<Longrightarrow>
   tool_rule d i =
     track_command t inp (track_file t (path_value inp) (i\<lparr>tools_used := add_unique t (tools_used i)\<rparr>))"
  by (auto simp: tool_identifier_def tool_rule_def tool_input_def is_tool_invocation_def Let_def
      path_value_def split: if_splits json.splits)

lemma tool_rule_tools:
  "tool_rule d i = Inr i' \<Longrightarrow>
   tools_used i' = add_all (tools_used i) (List.map_filter tool_identifier [JDict d])"
  apply (cases "tool_identifier (JDict d)")
   apply (simp add: tool_rule_no_id List.map_filter_simps)
  apply (cases "tool_input (JDict d)")
   apply (auto simp: tool_rule_no_input tool_rule_input List.map_filter_simps track_file_other
      dest!: track_command_other(2))
  done

lemma tool_rule_modified:
  "tool_rule d i = Inr i' \<Longrightarrow>
   files_modified i' = add_all (files_modified i) (List.map_filter modified_path [JDict d])"
  apply (cases "tool_identifier (JDict d)")
   apply (simp add: tool_rule_no_id List.map_filter_simps modified_path_def tracked_path_def)
  apply (cases "tool_input (JDict d)")
   apply (auto simp: tool_rule_no_input tool_rule_input List.map_filter_simps
      modified_path_def tracked_path_def track_file_def py_in_def
      dest!: track_command_other(3))
  done

lemma tool_rule_read:
  "tool_rule d i = Inr i' \<Longrightarrow>
   files_read i' = add_all (files_read i) (List.map_filter read_path [JDict d])"
  apply (cases "tool_identifier (JDict d)")
   apply (simp add: tool_rule_no_id List.map_filter_simps read_path_def tracked_path_def)
  apply (cases "tool_input (JDict d)")
   apply (auto simp: tool_rule_no_input tool_rule_input List.map_filter_simps
      read_path_def tracked_path_def track_file_def py_in_def
      dest!: track_command_other(5))
  done

lemma truncate_command_Inr:
  "truncate_command c = Inr v \<longleftrightarrow> command_fits c \<and> v = stored_command c"
  by (cases c) (auto simp: command_fits_def stored_command_def)

lemma truncate_command_Inl:
  "truncate_command c = Inl e \<Longrightarrow> \<not> command_fits c"
  by (cases c) (auto simp: command_fits_def split: if_splits)

lemma tool_rule_commands:
  "tool_rule d i = Inr i' \<Longrightarrow>
   commands_run i' = commands_run i @ map stored_command (List.map_filter captured_command [JDict d])"
  apply (cases "tool_identifier (JDict d)")
   apply (simp add: tool_rule_no_id List.map_filter_simps captured_command_def)
  apply (cases "tool_input (JDict d)")
   apply (auto simp: tool_rule_no_input tool_rule_input List.map_filter_simps
      captured_command_def track_command_def track_file_other Let_def truncate_command_Inr
      split: if_splits sum.splits)
  done

lemma tool_rule_Inr_iff:
  "(\<exists>i'. tool_rule d i = Inr i') \<longleftrightarrow> list_all command_fits (List.map_filter captured_command [JDict d])"
  apply (cases "tool_identifier (JDict d)")
   apply (simp add: tool_rule_no_id List.map_filter_simps captured_command_def)
  apply (cases "tool_input (JDict d)")
   apply (auto simp: tool_rule_no_input tool_rule_input List.map_filter_simps
      captured_command_def track_command_def track_file_other Let_def truncate_command_Inr
      split: if_splits sum.splits dest: truncate_command_Inl)
  done

lemma step_tools:
  "step i m = Inr i' \<Longrightarrow> tools_used i' = add_all (tools_used i) (List.map_filter tool_identifier [m])"
  by (cases m)
     (auto simp: error_rule_other prompt_rule_other split: sum.splits dest!: tool_rule_tools)

lemma step_modified:
  "step i m = Inr i' \<Longrightarrow>
   files_modified i' = add_all (files_modified i) (List.map_filter modified_path [m])"
  by (cases m)
     (auto simp: error_rule_other prompt_rule_other split: sum.splits dest!: tool_rule_modified)

lemma step_read:
  "step i m = Inr i' \<Longrightarrow> files_read i' = add_all (files_read i) (List.map_filter read_path [m])"
  by (cases m)
     (auto simp: error_rule_other prompt_rule_other split: sum.splits dest!: tool_rule_read)

lemma step_commands:
  "step i m = Inr i' \<Longrightarrow>
   commands_run i' = commands_run i @ map stored_command (List.map_filter captured_command [m])"
  by (cases m)
     (auto simp: error_rule_other prompt_rule_other split: sum.splits dest!: tool_rule_commands)

lemma step_total: "step i m = Inr i' \<Longrightarrow> total_messages i' = total_messages i"
  by (cases m)
     (auto simp: error_rule_other prompt_rule_other split: sum.splits dest!: tool_rule_other(4))

lemma step_Inr_iff:
  "(\<exists>i'. step i m = Inr i') \<longleftrightarrow>
   is_object m \<and> list_all command_fits (List.map_filter captured_command [m])"
proof (cases m)
  case (JDict d)
  have "(\<exists>i'. step i (JDict d) = Inr i') \<longleftrightarrow> (\<exists>i'. tool_rule d (prompt_rule d i) = Inr i')"
    by (auto split: sum.splits)
  then show ?thesis
    using JDict tool_rule_Inr_iff [of d "prompt_rule d i"] by (simp add: is_object_def)
qed (simp_all add: is_object_def)

subsection \<open>The loop, field by field\<close>

lemma map_filter_Cons:
  "List.map_filter f (x # xs) = List.map_filter f [x] @ List.map_filter f xs"
  by (simp split: option.splits)

lemma loop_user_prompts:
  "loop i ms = Inr i' \<Longrightarrow>
   user_prompts i' = user_prompts i @ map (truncate_to 200) (List.map_filter captured_prompt ms)"
proof (induction ms arbitrary: i)
  case (Cons m ms)
  then obtain j where j: "step i m = Inr j" "loop j ms = Inr i'"
    by (auto split: sum.splits)
  show ?case
    using Cons.IH [OF j(2)] step_user_prompts [OF j(1)]
    by (subst map_filter_Cons) simp
qed simp

lemma loop_errors:
  "loop i ms = Inr i' \<Longrightarrow>
   errors_encountered i' =
     errors_encountered i @ map (truncate_to 150) (List.map_filter captured_error ms)"
proof (induction ms arbitrary: i)
  case (Cons m ms)
  then obtain j where j: "step i m = Inr j" "loop j ms = Inr i'"
    by (auto split: sum.splits)
  show ?case
    using Cons.IH [OF j(2)] step_errors [OF j(1)]
    by (subst map_filter_Cons) simp
qed simp

lemma loop_commands:
  "loop i ms = Inr i' \<Longrightarrow>
   commands_run i' = commands_run i @ map stored_command (List.map_filter captured_command ms)"
proof (induction ms arbitrary: i)
  case (Cons m ms)
  then obtain j where j: "step i m = Inr j" "loop j ms = Inr i'"
    by (auto split: sum.splits)
  show ?case
    using Cons.IH [OF j(2)] step_commands [OF j(1)]
    by (subst map_filter_Cons) simp
qed simp

lemma loop_tools:
  "loop i ms = Inr i' \<Longrightarrow>
   tools_used i' = add_all (tools_used i) (List.map_filter tool_identifier ms)"
proof (induction ms arbitrary: i)
  case (Cons m ms)
  then obtain j where j: "step i m = Inr j" "loop j ms = Inr i'"
    by (auto split: sum.splits)
  show ?case
    using Cons.IH [OF j(2)] step_tools [OF j(1)]
    by (subst map_filter_Cons) simp
qed simp

lemma loop_modified:
  "loop i ms = Inr i' \<Longrightarrow>
   files_modified i' = add_all (files_modified i) (List.map_filter modified_path ms)"
proof (induction ms arbitrary: i)
  case (Cons m ms)
  then obtain j where j: "step i m = Inr j" "loop j ms = Inr i'"
    by (auto split: sum.splits)
  show ?case
    using Cons.IH [OF j(2)] step_modified [OF j(1)]
    by (subst map_filter_Cons) simp
qed simp

lemma loop_read:
  "loop i ms = Inr i' \<Longrightarrow>
   files_read i' = add_all (files_read i) (List.map_filter read_path ms)"
proof (induction ms arbitrary: i)
  case (Cons m ms)
  then obtain j where j: "step i m = Inr j" "loop j ms = Inr i'"
    by (auto split: sum.splits)
  show ?case
    using Cons.IH [OF j(2)] step_read [OF j(1)]
    by (subst map_filter_Cons) simp
qed simp

lemma loop_total: "loop i ms = Inr i' \<Longrightarrow> total_messages i' = total_messages i"
  by (induction ms arbitrary: i) (auto split: sum.splits dest: step_total)

lemma loop_Inr_iff:
  "(\<exists>i'. loop i ms = Inr i') \<longleftrightarrow>
   list_all is_object ms \<and> list_all command_fits (List.map_filter captured_command ms)"
proof (induction ms arbitrary: i)
  case (Cons m ms)
  show ?case
  proof (cases "step i m")
    case (Inl e)
    with step_Inr_iff [of i m] show ?thesis
      by (subst map_filter_Cons) auto
  next
    case (Inr j)
    with step_Inr_iff [of i m] Cons.IH [of j] show ?thesis
      by (subst map_filter_Cons) auto
  qed
qed simp

subsection \<open>Values in first-seen order\<close>

lemma py_in_append: "py_in y (acc @ [x]) \<longleftrightarrow> py_in y acc \<or> py_eq x y"
  by (auto simp: py_in_def)

lemma add_all_first_seen:
  "add_all acc xs = acc @ first_seen (filter (\<lambda>y. \<not> py_in y acc) xs)"
proof (induction xs arbitrary: acc)
  case (Cons x xs)
  show ?case
  proof (cases "py_in x acc")
    case True
    then have "add_unique x acc = acc" by (simp add: add_unique_def)
    with True show ?thesis by (simp add: Cons.IH)
  next
    case False
    then have a: "add_unique x acc = acc @ [x]" by (simp add: add_unique_def)
    have "filter (\<lambda>y. \<not> py_in y (acc @ [x])) xs =
          filter (\<lambda>y. \<not> py_eq x y) (filter (\<lambda>y. \<not> py_in y acc) xs)"
      by (auto simp: py_in_append intro: filter_cong)
    with False a show ?thesis by (simp add: Cons.IH)
  qed
qed simp

lemma add_all_Nil: "add_all [] xs = first_seen xs"
  by (simp add: add_all_first_seen py_in_def)

lemma set_first_seen: "set (first_seen xs) \<subseteq> set xs"
proof (induction xs rule: first_seen.induct)
  case (2 x xs)
  then show ?case by auto
qed simp

lemma first_seen_not_eq: "y \<in> set (first_seen (filter (\<lambda>y. \<not> py_eq x y) xs)) \<Longrightarrow> \<not> py_eq x y"
  using set_first_seen [of "filter (\<lambda>y. \<not> py_eq x y) xs"] by auto

lemma distinct_first_seen: "distinct (first_seen xs)"
proof (induction xs rule: first_seen.induct)
  case (2 x xs)
  then show ?case using first_seen_not_eq [of x x xs] by (auto simp: py_eq_refl)
qed simp

lemma first_seen_pairwise:
  "i < j \<Longrightarrow> j < length (first_seen xs) \<Longrightarrow> \<not> py_eq (first_seen xs ! i) (first_seen xs ! j)"
proof (induction xs arbitrary: i j rule: first_seen.induct)
  case (2 x xs)
  let ?r = "first_seen (filter (\<lambda>y. \<not> py_eq x y) xs)"
  from "2.prems" obtain j' where j': "j = Suc j'" "j' < length ?r"
    by (cases j) auto
  show ?case
  proof (cases i)
    case 0
    have "?r ! j' \<in> set ?r" using j' by simp
    with 0 j' show ?thesis using first_seen_not_eq [of "?r ! j'" x xs] by simp
  next
    case (Suc i')
    with "2.prems" j' "2.IH" [of i' j'] show ?thesis by simp
  qed
qed simp

lemma first_seen_covers: "y \<in> set xs \<Longrightarrow> py_in y (first_seen xs)"
proof (induction xs rule: first_seen.induct)
  case (2 x xs)
  show ?case
  proof (cases "py_eq x y")
    case True
    then show ?thesis by (simp add: py_in_def)
  next
    case False
    with "2.prems" have "y \<in> set (filter (\<lambda>y. \<not> py_eq x y) xs)"
      by (auto simp: py_eq_refl)
    from "2.IH" [OF this] show ?thesis by (auto simp: py_in_def)
  qed
qed simp

lemma first_seen_fixed:
  "(\<And>i j. i < j \<Longrightarrow> j < length xs \<Longrightarrow> \<not> py_eq (xs ! i) (xs ! j)) \<Longrightarrow> first_seen xs = xs"
proof (induction xs)
  case (Cons x xs)
  have "\<not> py_eq x y" if "y \<in> set xs" for y
  proof -
    from that obtain k where "k < length xs" "xs ! k = y" by (auto simp: in_set_conv_nth)
    with Cons.prems [of 0 "Suc k"] show ?thesis by simp
  qed
  then have f: "filter (\<lambda>y. \<not> py_eq x y) xs = xs" by (simp add: filter_id_conv)
  have "first_seen xs = xs"
  proof (rule Cons.IH)
    fix i j assume "i < j" "j < length xs"
    with Cons.prems [of "Suc i" "Suc j"] show "\<not> py_eq (xs ! i) (xs ! j)" by simp
  qed
  with f show ?case by simp
qed simp

lemma first_seen_idem: "first_seen (first_seen xs) = first_seen xs"
  by (rule first_seen_fixed) (rule first_seen_pairwise)

lemma py_eq_hashable: "py_eq x y \<Longrightarrow> py_hashable x = py_hashable y"
  by (cases x; cases y) auto

lemma hashable_first_seen: "list_all py_hashable (first_seen xs) = list_all py_hashable xs"
proof (induction xs rule: first_seen.induct)
  case (2 x xs)
  have "list_all py_hashable (filter (\<lambda>y. \<not> py_eq x y) xs) = list_all py_hashable xs"
    if "py_hashable x"
    using that py_eq_hashable [of x] by (auto simp: list_all_iff)
  with 2 show ?case by auto
qed simp

lemma list_of_set_first_seen:
  "list_of_set rank (first_seen xs) =
     (if list_all py_hashable xs then Inr (sort_key rank (first_seen xs)) else Inl TypeError)"
  by (simp add: list_of_set_def add_all_Nil first_seen_idem hashable_first_seen)

subsection \<open>The extraction and the facts of the specification\<close>

lemma list_all_map_filter:
  "list_all P (List.map_filter f ms) =
   list_all (\<lambda>m. case f m of None \<Rightarrow> True | Some v \<Rightarrow> P v) ms"
  by (induction ms) (auto split: option.splits)

lemma list_all_record_ok:
  "list_all record_ok ms \<longleftrightarrow>
     list_all is_object ms \<and>
     list_all command_fits (List.map_filter captured_command ms) \<and>
     list_all py_hashable (List.map_filter modified_path ms) \<and>
     list_all py_hashable (List.map_filter read_path ms)"
  unfolding list_all_map_filter by (auto simp: list_all_iff record_ok_def)

lemma loop_result:
  assumes "loop (initial_info ms0) ms = Inr i"
  shows "i = \<lparr>user_prompts = map (truncate_to 200) (List.map_filter captured_prompt ms),
      tools_used = first_seen (List.map_filter tool_identifier ms),
      files_modified = first_seen (List.map_filter modified_path ms),
      files_created = [],
      files_read = first_seen (List.map_filter read_path ms),
      commands_run = map stored_command (List.map_filter captured_command ms),
      errors_encountered = map (truncate_to 150) (List.map_filter captured_error ms),
      total_messages = length ms0\<rparr>"
  using loop_user_prompts [OF assms] loop_tools [OF assms] loop_modified [OF assms]
    loop_files_created [OF assms] loop_read [OF assms] loop_commands [OF assms]
    loop_errors [OF assms] loop_total [OF assms]
  by (simp add: initial_info_def add_all_Nil)

lemma extract_ok:
  assumes "list_all record_ok ms"
  shows "extract_session_info rank ms = Inr (session_facts rank ms)"
proof -
  from assms have ok: "list_all is_object ms"
    "list_all command_fits (List.map_filter captured_command ms)"
    "list_all py_hashable (List.map_filter modified_path ms)"
    "list_all py_hashable (List.map_filter read_path ms)"
    by (simp_all add: list_all_record_ok)
  from ok(1,2) obtain i where i: "loop (initial_info ms) ms = Inr i"
    using loop_Inr_iff [of "initial_info ms" ms] by blast
  define j where "j = \<lparr>user_prompts = map (truncate_to 200) (List.map_filter captured_prompt ms),
      tools_used = first_seen (List.map_filter tool_identifier ms),
      files_modified = first_seen (List.map_filter modified_path ms),
      files_created = [],
      files_read = first_seen (List.map_filter read_path ms),
      commands_run = map stored_command (List.map_filter captured_command ms),
      errors_encountered = map (truncate_to 150) (List.map_filter captured_error ms),
      total_messages = length ms\<rparr>"
  from loop_result [OF i] have "i = j" by (simp add: j_def)
  moreover have "deduplicate_and_limit rank j = Inr (session_facts rank ms)"
    by (simp add: j_def deduplicate_and_limit_def list_of_set_first_seen ok session_facts_def)
  ultimately show ?thesis using i by (simp add: extract_session_info_def)
qed

lemma extract_fail:
  assumes "\<not> list_all record_ok ms"
  shows "\<exists>e. extract_session_info rank ms = Inl e"
proof (cases "loop (initial_info ms) ms")
  case (Inl e)
  then show ?thesis by (simp add: extract_session_info_def)
next
  case (Inr i)
  then have "list_all is_object ms" "list_all command_fits (List.map_filter captured_command ms)"
    using loop_Inr_iff [of "initial_info ms" ms] by auto
  with assms have bad: "\<not> (list_all py_hashable (List.map_filter modified_path ms) \<and>
      list_all py_hashable (List.map_filter read_path ms))"
    by (simp add: list_all_record_ok)
  define j where "j = \<lparr>user_prompts = map (truncate_to 200) (List.map_filter captured_prompt ms),
      tools_used = first_seen (List.map_filter tool_identifier ms),
      files_modified = first_seen (List.map_filter modified_path ms),
      files_created = [],
      files_read = first_seen (List.map_filter read_path ms),
      commands_run = map stored_command (List.map_filter captured_command ms),
      errors_encountered = map (truncate_to 150) (List.map_filter captured_error ms),
      total_messages = length ms\<rparr>"
  from loop_result [OF Inr] have "i = j" by (simp add: j_def)
  moreover have "\<exists>e. deduplicate_and_limit rank j = Inl e"
    using bad by (auto simp add: j_def deduplicate_and_limit_def list_of_set_first_seen)
  ultimately show ?thesis using Inr by (auto simp add: extract_session_info_def)
qed

lemma extract_Inr_iff:
  "extract_session_info rank ms = Inr info \<longleftrightarrow> list_all record_ok ms \<and> info = session_facts rank ms"
  using extract_ok [of ms rank] extract_fail [of ms rank] by (cases "list_all record_ok ms") auto

lemma result_cases:
  "(case r of Inl e \<Rightarrow> False | Inr v \<Rightarrow> True) \<Longrightarrow> \<exists>v. r = Inr v"
  by (cases r) auto

subsection \<open>The caps of the post-pass\<close>

text \<open>
  Claim C2. Whatever the records, the facts that \<^verbatim>\<open>extract_session_info\<close> returns hold at
  most 20 modified files, 20 read files, 15 commands and 10 error excerpts.
\<close>

theorem extract_caps:
  assumes "extract_session_info rank messages = Inr info"
  shows "length (files_modified info) \<le> 20 \<and> length (files_read info) \<le> 20 \<and>
         length (commands_run info) \<le> 15 \<and> length (errors_encountered info) \<le> 10"
  using assms
  by (auto simp: extract_session_info_def deduplicate_and_limit_def split: sum.splits)

text \<open>
  The caps on a transcript of 22 edits of different files, each with an error text, and 16
  shell commands: more than 20 files, 15 commands and 10 errors are gathered.
\<close>

theorem extract_caps_witness:
  "\<exists>info. extract_session_info (\<lambda>v. 0) (map edit_record [0..<22] @ map bash_record [0..<16])
             = Inr info \<and>
          length (files_modified info) \<le> 20 \<and> length (files_read info) \<le> 20 \<and>
          length (commands_run info) \<le> 15 \<and> length (errors_encountered info) \<le> 10"
proof -
  let ?r = "extract_session_info (\<lambda>v. 0) (map edit_record [0..<22] @ map bash_record [0..<16])"
  have "case ?r of Inl e \<Rightarrow> False | Inr v \<Rightarrow> True"
    by code_simp
  then obtain info where h: "?r = Inr info"
    using result_cases by blast
  from extract_caps [OF h] h show ?thesis
    by blast
qed

subsection \<open>Created files\<close>

text \<open>
  Claim C10. The list \<^verbatim>\<open>files_created\<close> of the returned facts is empty for every input:
  no rule appends to it, and a record of the write-whole-file tool goes to
  \<^verbatim>\<open>files_modified\<close>.
\<close>

theorem files_created_empty:
  assumes "extract_session_info rank messages = Inr info"
  shows "files_created info = []"
  using assms
  by (auto simp: extract_session_info_def deduplicate_and_limit_def initial_info_def
      split: sum.splits dest: loop_files_created)

text \<open>A transcript with one record of the write-whole-file tool.\<close>

theorem files_created_empty_witness:
  "extract_session_info (\<lambda>v. 0) [write_record ''notes.txt''] =
     Inr \<lparr>user_prompts = [], tools_used = [JStr ''Write''],
          files_modified = [JStr ''notes.txt''], files_created = [], files_read = [],
          commands_run = [], errors_encountered = [], total_messages = 1\<rparr> \<and>
   files_created \<lparr>user_prompts = [], tools_used = [JStr ''Write''],
          files_modified = [JStr ''notes.txt''], files_created = [], files_read = [],
          commands_run = [], errors_encountered = [], total_messages = 1\<rparr> = []"
proof -
  have h: "extract_session_info (\<lambda>v. 0) [write_record ''notes.txt''] =
     Inr \<lparr>user_prompts = [], tools_used = [JStr ''Write''],
          files_modified = [JStr ''notes.txt''], files_created = [], files_read = [],
          commands_run = [], errors_encountered = [], total_messages = 1\<rparr>"
    by code_simp
  from files_created_empty [OF h] h show ?thesis
    by simp
qed

subsection \<open>Tools in first-seen order\<close>

lemma subseq_first_seen: "subseq (first_seen xs) xs"
proof (induction xs rule: first_seen.induct)
  case (2 x xs)
  have "subseq (filter (\<lambda>y. \<not> py_eq x y) xs) xs"
    by simp
  with 2 have "subseq (first_seen (filter (\<lambda>y. \<not> py_eq x y) xs)) xs"
    using subseq_order.order_trans by blast
  then show ?case by simp
qed simp

text \<open>
  Claim C7. The list \<^verbatim>\<open>tools_used\<close> of the returned facts holds the tool identifiers of
  the records in the order of their first occurrence: it is the list of identifiers with
  every later occurrence of a value removed, so it has no duplicates (no two entries are
  equal, as Python compares them), it keeps the order of the input, and every identifier
  of the input occurs in it.
\<close>

theorem tools_used_first_seen:
  assumes "extract_session_info rank messages = Inr info"
  shows "tools_used info = first_seen (List.map_filter tool_identifier messages) \<and>
         distinct (tools_used info) \<and>
         (\<forall>i j. i < j \<and> j < length (tools_used info) \<longrightarrow>
                \<not> py_eq (tools_used info ! i) (tools_used info ! j)) \<and>
         subseq (tools_used info) (List.map_filter tool_identifier messages) \<and>
         (\<forall>t \<in> set (List.map_filter tool_identifier messages). py_in t (tools_used info))"
proof -
  from assms have "tools_used info = first_seen (List.map_filter tool_identifier messages)"
    by (simp add: extract_Inr_iff session_facts_def)
  then show ?thesis
    using distinct_first_seen first_seen_pairwise subseq_first_seen first_seen_covers
    by auto
qed

text \<open>
  Five tool records with three different tools: \<^verbatim>\<open>Write\<close>, \<^verbatim>\<open>Bash\<close>, \<^verbatim>\<open>Write\<close>, \<^verbatim>\<open>Read\<close>,
  \<^verbatim>\<open>Bash\<close>.
\<close>

theorem tools_used_first_seen_witness:
  "\<exists>info. extract_session_info (\<lambda>v. 0) tools_transcript = Inr info \<and>
          tools_used info = [JStr ''Write'', JStr ''Bash'', JStr ''Read''] \<and>
          distinct (tools_used info)"
proof -
  have "case extract_session_info (\<lambda>v. 0) tools_transcript of Inl e \<Rightarrow> False | Inr v \<Rightarrow> True"
    by code_simp
  then obtain info where h: "extract_session_info (\<lambda>v. 0) tools_transcript = Inr info"
    using result_cases by blast
  have "first_seen (List.map_filter tool_identifier tools_transcript) =
        [JStr ''Write'', JStr ''Bash'', JStr ''Read'']"
    by code_simp
  with tools_used_first_seen [OF h] h show ?thesis
    by auto
qed

subsection \<open>Truncation\<close>

lemma length_truncate: "length (truncate_to n s) \<le> n + length ''...''"
  by (simp add: truncate_to_def)

lemma truncate_short: "length s \<le> n \<Longrightarrow> truncate_to n s = s"
  by (simp add: truncate_to_def)

lemma stored_command_length: "stored_command c = JStr s \<Longrightarrow> length s \<le> 100 + length ''...''"
  using length_truncate [of 100] by (cases c) (auto simp: stored_command_def)

lemma stored_command_short: "length s \<le> 100 \<Longrightarrow> stored_command (JStr s) = JStr s"
  by (simp add: stored_command_def truncate_short)

text \<open>
  Claim C3. A string stored in \<^verbatim>\<open>user_prompts\<close>, \<^verbatim>\<open>commands_run\<close> or
  \<^verbatim>\<open>errors_encountered\<close> is at most 200, 100 or 150 characters long, plus the three of
  the marker. The stored entries are the captured strings in their order (all prompts, the
  first 15 commands, the first 10 errors), and an entry whose captured string is within the
  limit is that string, unchanged.
\<close>

theorem stored_strings_truncated:
  assumes "extract_session_info rank messages = Inr info"
  shows "(\<forall>p \<in> set (user_prompts info). length p \<le> 200 + length ''...'') \<and>
         (\<forall>s. JStr s \<in> set (commands_run info) \<longrightarrow> length s \<le> 100 + length ''...'') \<and>
         (\<forall>e \<in> set (errors_encountered info). length e \<le> 150 + length ''...'') \<and>
         length (user_prompts info) = length (List.map_filter captured_prompt messages) \<and>
         length (commands_run info) =
           min 15 (length (List.map_filter captured_command messages)) \<and>
         length (errors_encountered info) =
           min 10 (length (List.map_filter captured_error messages)) \<and>
         (\<forall>k < length (user_prompts info).
            length (List.map_filter captured_prompt messages ! k) \<le> 200 \<longrightarrow>
            user_prompts info ! k = List.map_filter captured_prompt messages ! k) \<and>
         (\<forall>k < length (commands_run info). \<forall>s.
            List.map_filter captured_command messages ! k = JStr s \<and> length s \<le> 100 \<longrightarrow>
            commands_run info ! k = JStr s) \<and>
         (\<forall>k < length (errors_encountered info).
            length (List.map_filter captured_error messages ! k) \<le> 150 \<longrightarrow>
            errors_encountered info ! k = List.map_filter captured_error messages ! k)"
proof -
  from assms have info: "info = session_facts rank messages"
    by (simp add: extract_Inr_iff)
  have p: "user_prompts info = map (truncate_to 200) (List.map_filter captured_prompt messages)"
    and c: "commands_run info =
              take 15 (map stored_command (List.map_filter captured_command messages))"
    and e: "errors_encountered info =
              take 10 (map (truncate_to 150) (List.map_filter captured_error messages))"
    by (simp_all add: info session_facts_def)
  have 1: "\<forall>p \<in> set (user_prompts info). length p \<le> 200 + length ''...''"
    unfolding p using length_truncate [of 200] by auto
  have 2: "\<forall>s. JStr s \<in> set (commands_run info) \<longrightarrow> length s \<le> 100 + length ''...''"
  proof (intro allI impI)
    fix s assume "JStr s \<in> set (commands_run info)"
    then have "JStr s \<in> set (map stored_command (List.map_filter captured_command messages))"
      unfolding c by (rule in_set_takeD)
    then show "length s \<le> 100 + length ''...''"
      using stored_command_length by fastforce
  qed
  have 3: "\<forall>e \<in> set (errors_encountered info). length e \<le> 150 + length ''...''"
  proof
    fix x assume "x \<in> set (errors_encountered info)"
    then have "x \<in> set (map (truncate_to 150) (List.map_filter captured_error messages))"
      unfolding e by (rule in_set_takeD)
    then show "length x \<le> 150 + length ''...''"
      using length_truncate [of 150] by auto
  qed
  have 4: "length (user_prompts info) = length (List.map_filter captured_prompt messages)"
    by (simp add: p)
  have 5: "length (commands_run info) =
           min 15 (length (List.map_filter captured_command messages))"
    by (simp add: c)
  have 6: "length (errors_encountered info) =
           min 10 (length (List.map_filter captured_error messages))"
    by (simp add: e)
  have 7: "\<forall>k < length (user_prompts info).
            length (List.map_filter captured_prompt messages ! k) \<le> 200 \<longrightarrow>
            user_prompts info ! k = List.map_filter captured_prompt messages ! k"
    by (simp add: p truncate_short)
  have 8: "\<forall>k < length (commands_run info). \<forall>s.
            List.map_filter captured_command messages ! k = JStr s \<and> length s \<le> 100 \<longrightarrow>
            commands_run info ! k = JStr s"
    by (simp add: c stored_command_short)
  have 9: "\<forall>k < length (errors_encountered info).
            length (List.map_filter captured_error messages ! k) \<le> 150 \<longrightarrow>
            errors_encountered info ! k = List.map_filter captured_error messages ! k"
    by (simp add: e truncate_short)
  from 1 2 3 4 5 6 7 8 9 show ?thesis by blast
qed

text \<open>
  Two prompts, two commands and two error texts, the second of each one character over
  its limit.
\<close>

theorem stored_strings_truncated_witness:
  "\<exists>info. extract_session_info (\<lambda>v. 0) long_transcript = Inr info \<and>
          length (user_prompts info) = 2 \<and> user_prompts info ! 0 = ''fix the build'' \<and>
          length (user_prompts info ! 1) \<le> 203 \<and>
          length (commands_run info) = 2 \<and> commands_run info ! 0 = JStr ''ls'' \<and>
          length (errors_encountered info) = 2 \<and> errors_encountered info ! 0 = ''failed'' \<and>
          length (errors_encountered info ! 1) \<le> 153"
proof -
  have "list_all record_ok long_transcript"
    by code_simp
  then obtain info where h: "extract_session_info (\<lambda>v. 0) long_transcript = Inr info"
    using extract_ok by blast
  have p: "List.map_filter captured_prompt long_transcript =
           [''fix the build'', replicate 201 CHR ''x'']"
    by code_simp
  have c: "List.map_filter captured_command long_transcript =
           [JStr ''ls'', JStr (replicate 101 CHR ''y'')]"
    by code_simp
  have e: "List.map_filter captured_error long_transcript =
           [''failed'', ''error '' @ replicate 150 CHR ''z'']"
    by code_simp
  note t = stored_strings_truncated [OF h, unfolded p c e]
  from t have l: "length (user_prompts info) = 2" "length (commands_run info) = 2"
    "length (errors_encountered info) = 2"
    by simp_all
  from t l have "user_prompts info ! 0 = ''fix the build''" by simp
  moreover from t l have "commands_run info ! 0 = JStr ''ls''" by simp
  moreover from t l have "errors_encountered info ! 0 = ''failed''" by simp
  moreover from t l have "length (user_prompts info ! 1) \<le> 203" by simp
  moreover from t l have "length (errors_encountered info ! 1) \<le> 153" by simp
  ultimately show ?thesis using h l by blast
qed

subsection \<open>Completion\<close>

lemma missing_prompt_fields:
  "\<not> dict_has d ''content'' \<and> \<not> dict_has d ''message'' \<Longrightarrow> captured_prompt (JDict d) = None"
  by (simp add: captured_prompt_def dict_has_def dict_get_def py_strip_def)

lemma missing_tool_fields:
  "\<not> dict_has d ''name'' \<and> \<not> dict_has d ''tool'' \<Longrightarrow> tool_identifier (JDict d) = None"
  by (simp add: tool_identifier_def dict_has_def dict_get_def)

lemma no_tool_no_facts:
  "tool_identifier m = None \<Longrightarrow>
   modified_path m = None \<and> read_path m = None \<and> captured_command m = None"
  by (simp add: modified_path_def read_path_def tracked_path_def captured_command_def)

lemma missing_input_field:
  "\<not> dict_has d ''input'' \<Longrightarrow>
   modified_path (JDict d) = None \<and> read_path (JDict d) = None \<and>
   captured_command (JDict d) = None"
  by (simp add: modified_path_def read_path_def tracked_path_def captured_command_def
      tool_input_def dict_has_def dict_get_def path_value_def split: option.splits)

lemma missing_error_fields:
  "\<not> dict_has d ''content'' \<and> \<not> dict_has d ''output'' \<Longrightarrow> captured_error (JDict d) = None"
  by (simp add: captured_error_def dict_has_def dict_get_def py_str_def py_lower_def)

text \<open>
  Claim C1, amended. The extraction returns, without raising, on every sequence of
  accepted records: objects, where a command captured from a record is a string or a list
  or object of at most 100 entries, and a path captured from a record is hashable. What it
  returns are the facts of the specification, where every record contributes to every list
  on its own. An object without the fields of a rule contributes nothing for that rule: no
  prompt without \<^verbatim>\<open>content\<close> and \<^verbatim>\<open>message\<close>; no tool, path or command without \<^verbatim>\<open>name\<close>
  and \<^verbatim>\<open>tool\<close>; no path or command without \<^verbatim>\<open>input\<close>; no error without \<^verbatim>\<open>content\<close> and
  \<^verbatim>\<open>output\<close>.
\<close>

theorem extraction_completes_on_accepted_records:
  "(list_all record_ok messages \<longrightarrow>
      extract_session_info rank messages = Inr (session_facts rank messages)) \<and>
   (\<forall>d. \<not> dict_has d ''content'' \<and> \<not> dict_has d ''message'' \<longrightarrow>
        captured_prompt (JDict d) = None) \<and>
   (\<forall>d. \<not> dict_has d ''name'' \<and> \<not> dict_has d ''tool'' \<longrightarrow>
        tool_identifier (JDict d) = None \<and> modified_path (JDict d) = None \<and>
        read_path (JDict d) = None \<and> captured_command (JDict d) = None) \<and>
   (\<forall>d. \<not> dict_has d ''input'' \<longrightarrow>
        modified_path (JDict d) = None \<and> read_path (JDict d) = None \<and>
        captured_command (JDict d) = None) \<and>
   (\<forall>d. \<not> dict_has d ''content'' \<and> \<not> dict_has d ''output'' \<longrightarrow>
        captured_error (JDict d) = None)"
proof -
  have "list_all record_ok messages \<longrightarrow>
      extract_session_info rank messages = Inr (session_facts rank messages)"
    by (simp add: extract_ok)
  then show ?thesis
    using missing_prompt_fields missing_tool_fields no_tool_no_facts missing_input_field
      missing_error_fields
    by blast
qed

text \<open>
  The claim as stated fails on a record that is not an object, here the number 42, which
  the reader returns for the line \<^verbatim>\<open>42\<close>: \<^verbatim>\<open>msg.get\<close> raises \<^verbatim>\<open>AttributeError\<close>.
\<close>

theorem non_object_record_raises:
  "extract_session_info (\<lambda>v. 0) [JInt 42] = Inl AttributeError"
  by code_simp

text \<open>
  Five objects, four of them without the fields their rule reads; only the last one
  contributes a prompt, and the tool record with a name contributes its tool.
\<close>

theorem extraction_completes_witness:
  "list_all record_ok untyped_transcript \<and>
   extract_session_info (\<lambda>v. 0) untyped_transcript =
     Inr \<lparr>user_prompts = [''hello''], tools_used = [JStr ''Bash''], files_modified = [],
          files_created = [], files_read = [], commands_run = [], errors_encountered = [],
          total_messages = 5\<rparr> \<and>
   captured_prompt (JDict [(''type'', JStr ''human'')]) = None \<and>
   tool_identifier (JDict [(''type'', JStr ''tool_use'')]) = None \<and>
   captured_command (JDict [(''type'', JStr ''tool_use''), (''name'', JStr ''Bash'')]) = None \<and>
   captured_error (JDict [(''type'', JStr ''tool_result'')]) = None"
proof -
  note t = extraction_completes_on_accepted_records [of untyped_transcript "\<lambda>v. 0"]
  have ok: "list_all record_ok untyped_transcript"
    by code_simp
  with t have "extract_session_info (\<lambda>v. 0) untyped_transcript =
               Inr (session_facts (\<lambda>v. 0) untyped_transcript)"
    by blast
  also have "session_facts (\<lambda>v. 0) untyped_transcript =
        \<lparr>user_prompts = [''hello''], tools_used = [JStr ''Bash''], files_modified = [],
          files_created = [], files_read = [], commands_run = [], errors_encountered = [],
          total_messages = 5\<rparr>"
    by code_simp
  finally have r: "extract_session_info (\<lambda>v. 0) untyped_transcript =
     Inr \<lparr>user_prompts = [''hello''], tools_used = [JStr ''Bash''], files_modified = [],
          files_created = [], files_read = [], commands_run = [], errors_encountered = [],
          total_messages = 5\<rparr>" .
  have d: "\<not> dict_has [(''type'', JStr ''human'')] ''content''"
    "\<not> dict_has [(''type'', JStr ''human'')] ''message''"
    "\<not> dict_has [(''type'', JStr ''tool_use'')] ''name''"
    "\<not> dict_has [(''type'', JStr ''tool_use'')] ''tool''"
    "\<not> dict_has [(''type'', JStr ''tool_use''), (''name'', JStr ''Bash'')] ''input''"
    "\<not> dict_has [(''type'', JStr ''tool_result'')] ''content''"
    "\<not> dict_has [(''type'', JStr ''tool_result'')] ''output''"
    by (simp_all add: dict_has_def)
  from t d have "captured_prompt (JDict [(''type'', JStr ''human'')]) = None"
    "tool_identifier (JDict [(''type'', JStr ''tool_use'')]) = None"
    "captured_command (JDict [(''type'', JStr ''tool_use''), (''name'', JStr ''Bash'')]) = None"
    "captured_error (JDict [(''type'', JStr ''tool_result'')]) = None"
    by blast+
  with ok r show ?thesis by blast
qed

subsection \<open>Three prompts and two edits of one file\<close>

lemma length_map_filter:
  "length (List.map_filter f xs) = length (filter (\<lambda>x. f x \<noteq> None) xs)"
  by (induction xs) (auto split: option.splits)

lemma map_filter_cong:
  "(\<And>x. x \<in> set xs \<Longrightarrow> f x = g x) \<Longrightarrow> List.map_filter f xs = List.map_filter g xs"
  by (induction xs) (auto split: option.splits)

lemma first_seen_constant:
  "xs \<noteq> [] \<Longrightarrow> \<forall>x \<in> set xs. x = a \<Longrightarrow> first_seen xs = [a]"
proof (induction xs)
  case (Cons x xs)
  then have "filter (\<lambda>y. \<not> py_eq x y) xs = []"
    by (auto simp: py_eq_refl filter_empty_conv)
  with Cons.prems show ?case by simp
qed simp

lemma mutation_facts:
  assumes "is_mutation m" "carries_path p m" "p \<noteq> []"
  shows "modified_path m = Some (JStr p)" "read_path m = None" "captured_command m = None"
  using assms
  by (auto simp: is_mutation_def carries_path_def modified_path_def read_path_def
      tracked_path_def captured_command_def split: option.splits)

lemma not_mutation_no_path: "\<not> is_mutation m \<Longrightarrow> modified_path m = None"
  by (auto simp: is_mutation_def modified_path_def tracked_path_def split: option.splits)

text \<open>
  Claim C5, amended. In a transcript of accepted records with exactly three captured
  prompts (type tag \<^verbatim>\<open>human\<close> or role tag \<^verbatim>\<open>user\<close>, string content that is not blank) and
  exactly two records of a mutation tool (\<^verbatim>\<open>Write\<close>, \<^verbatim>\<open>Edit\<close>, \<^verbatim>\<open>MultiEdit\<close>), whose input
  objects carry the same non-empty string path, the extraction returns, \<^verbatim>\<open>files_modified\<close>
  has length 1 and \<^verbatim>\<open>user_prompts\<close> has length 3. Records of other tools may occur.
\<close>

theorem three_prompts_two_edits:
  assumes ok: "list_all record_ok messages"
    and prompts: "length (filter (\<lambda>m. captured_prompt m \<noteq> None) messages) = 3"
    and edits: "length (filter is_mutation messages) = 2"
    and same: "\<forall>m \<in> set messages. is_mutation m \<longrightarrow> carries_path p m"
    and path: "p \<noteq> []"
  shows "\<exists>info. extract_session_info rank messages = Inr info \<and>
               length (files_modified info) = 1 \<and> length (user_prompts info) = 3"
proof -
  have mp: "modified_path m = (if is_mutation m then Some (JStr p) else None)"
    if "m \<in> set messages" for m
    using that same mutation_facts(1) [OF _ _ path, of m] not_mutation_no_path [of m]
    by auto
  from ok have h: "extract_session_info rank messages = Inr (session_facts rank messages)"
    by (rule extract_ok)
  have "List.map_filter modified_path messages =
        List.map_filter (\<lambda>m. if is_mutation m then Some (JStr p) else None) messages"
    using mp by (intro map_filter_cong) auto
  also have "\<dots> = map (\<lambda>m. JStr p) (filter is_mutation messages)"
    by (induction messages) auto
  finally have m: "List.map_filter modified_path messages =
      map (\<lambda>m. JStr p) (filter is_mutation messages)" .
  have "first_seen (List.map_filter modified_path messages) = [JStr p]"
    unfolding m using edits by (intro first_seen_constant) auto
  then have "length (files_modified (session_facts rank messages)) = 1"
    by (simp add: session_facts_def)
  moreover have "length (user_prompts (session_facts rank messages)) = 3"
    using prompts by (simp add: session_facts_def length_map_filter)
  ultimately show ?thesis using h by blast
qed
text \<open>
  The claim as stated fails when the content of the prompts is a string of whitespace,
  here one space: it is not empty, and \<^verbatim>\<open>content.strip()\<close> rejects it.
\<close>

theorem blank_prompts_not_captured:
  "extract_session_info (\<lambda>v. 0) blank_prompts_transcript =
     Inr \<lparr>user_prompts = [], tools_used = [JStr ''Write'', JStr ''Edit''],
          files_modified = [JStr ''a.py''], files_created = [], files_read = [],
          commands_run = [], errors_encountered = [], total_messages = 5\<rparr> \<and>
   length (user_prompts \<lparr>user_prompts = [], tools_used = [JStr ''Write'', JStr ''Edit''],
          files_modified = [JStr ''a.py''], files_created = [], files_read = [],
          commands_run = [], errors_encountered = [], total_messages = 5\<rparr>) \<noteq> 3"
  by code_simp

text \<open>
  Three prompts, a write and an edit of the file \<^verbatim>\<open>a.py\<close>, and between them a read of the
  file and a shell command.
\<close>

theorem three_prompts_two_edits_witness:
  "\<exists>info. extract_session_info (\<lambda>v. 0) mixed_transcript = Inr info \<and>
          length (files_modified info) = 1 \<and> length (user_prompts info) = 3"
proof (rule three_prompts_two_edits [where p = "''a.py''"])
  show "list_all record_ok mixed_transcript"
    by code_simp
  show "length (filter (\<lambda>m. captured_prompt m \<noteq> None) mixed_transcript) = 3"
    by code_simp
  show "length (filter is_mutation mixed_transcript) = 2"
    by code_simp
  show "\<forall>m \<in> set mixed_transcript. is_mutation m \<longrightarrow> carries_path ''a.py'' m"
    by code_simp
  show "''a.py'' \<noteq> []"
    by simp
qed
subsection \<open>An error record\<close>

lemma build_failed_facts:
  "captured_error build_failed_record = Some ''Build failed: missing semicolon''"
  "record_ok build_failed_record"
  by code_simp+

lemma step_build_failed:
  "step info build_failed_record =
     Inr (info\<lparr>errors_encountered :=
                errors_encountered info @ [''Build failed: missing semicolon'']\<rparr>)"
proof -
  have t: "tool_rule [(''type'', JStr ''tool_result''),
            (''content'', JStr ''Build failed: missing semicolon'')] i = Inr i" for i
    by (simp add: tool_rule_def dict_get_def dict_has_def)
  have p: "prompt_rule [(''type'', JStr ''tool_result''),
            (''content'', JStr ''Build failed: missing semicolon'')] i = i" for i
    by (simp add: prompt_rule_def dict_get_def)
  have l: "py_substr ''failed'' (py_lower ''Build failed: missing semicolon'')"
    by code_simp
  have "truncate_to 150 ''Build failed: missing semicolon'' = ''Build failed: missing semicolon''"
    by (simp add: truncate_to_def)
  with l have e: "error_rule [(''type'', JStr ''tool_result''),
            (''content'', JStr ''Build failed: missing semicolon'')] i =
        i\<lparr>errors_encountered := errors_encountered i @ [''Build failed: missing semicolon'']\<rparr>" for i
    by (simp add: error_rule_def dict_get_def py_str_def)
  show ?thesis
    by (simp add: build_failed_record_def t p e)
qed

lemma map_filter_append:
  "List.map_filter f (xs @ ys) = List.map_filter f xs @ List.map_filter f ys"
  by (simp add: List.map_filter_def)

text \<open>
  Claim C9, amended. Whenever the loop reaches the record
  \<^verbatim>\<open>{"type": "tool_result", "content": "Build failed: missing semicolon"}\<close> it appends the
  content text, unchanged, to \<^verbatim>\<open>errors_encountered\<close>. When the other records of the input
  are accepted and fewer than 10 errors are captured from the records before it, the
  extraction returns and the text is an entry of the returned list, at the position that
  follows the earlier errors.
\<close>

theorem build_failure_recorded:
  assumes others: "list_all record_ok (pre @ post)"
    and room: "length (List.map_filter captured_error pre) < 10"
  shows "(\<exists>info. extract_session_info rank (pre @ build_failed_record # post) = Inr info \<and>
            ''Build failed: missing semicolon'' \<in> set (errors_encountered info) \<and>
            errors_encountered info ! length (List.map_filter captured_error pre) =
              ''Build failed: missing semicolon'') \<and>
         (\<forall>acc. step acc build_failed_record =
            Inr (acc\<lparr>errors_encountered :=
                      errors_encountered acc @ [''Build failed: missing semicolon'']\<rparr>))"
proof -
  let ?text = "''Build failed: missing semicolon''"
  let ?ms = "pre @ build_failed_record # post"
  let ?n = "length (List.map_filter captured_error pre)"
  from others have "list_all record_ok ?ms"
    by (simp add: build_failed_facts)
  then have h: "extract_session_info rank ?ms = Inr (session_facts rank ?ms)"
    by (rule extract_ok)
  have "List.map_filter captured_error ?ms =
        List.map_filter captured_error pre @ ?text # List.map_filter captured_error post"
    by (simp add: map_filter_append build_failed_facts)
  then have e: "errors_encountered (session_facts rank ?ms) =
        take 10 (map (truncate_to 150) (List.map_filter captured_error pre) @
                 ?text # map (truncate_to 150) (List.map_filter captured_error post))"
    by (simp add: session_facts_def truncate_to_def)
  have n: "errors_encountered (session_facts rank ?ms) ! ?n = ?text"
    unfolding e using room by (simp add: nth_append)
  have "?n < length (errors_encountered (session_facts rank ?ms))"
    unfolding e using room by simp
  with n have "?text \<in> set (errors_encountered (session_facts rank ?ms))"
    by (metis nth_mem)
  with h n show ?thesis
    using step_build_failed by blast
qed

text \<open>
  The claim as stated fails in two ways: after a shell record whose command is the number
  5 the extraction raises before it reaches the record, and after ten other errors the
  cap of the post-pass drops the entry.
\<close>

theorem build_failure_lost:
  "extract_session_info (\<lambda>v. 0) [bad_command_record, build_failed_record] = Inl TypeError \<and>
   extract_session_info (\<lambda>v. 0) (replicate 10 (result_record ''error'') @ [build_failed_record]) =
     Inr \<lparr>user_prompts = [], tools_used = [], files_modified = [], files_created = [],
          files_read = [], commands_run = [],
          errors_encountered = replicate 10 ''error'', total_messages = 11\<rparr> \<and>
   ''Build failed: missing semicolon'' \<notin> set (replicate 10 ''error'')"
  by code_simp

text \<open>The record between a prompt and a result without an error.\<close>

theorem build_failure_recorded_witness:
  "list_all record_ok ([prompt_record ''build it''] @ [result_record ''done'']) \<and>
   length (List.map_filter captured_error [prompt_record ''build it'']) < 10 \<and>
   (\<exists>info. extract_session_info (\<lambda>v. 0)
             ([prompt_record ''build it''] @ build_failed_record # [result_record ''done''])
           = Inr info \<and>
           ''Build failed: missing semicolon'' \<in> set (errors_encountered info))"
proof -
  have a: "list_all record_ok ([prompt_record ''build it''] @ [result_record ''done''])"
    by code_simp
  have b: "length (List.map_filter captured_error [prompt_record ''build it'']) < 10"
    by code_simp
  from build_failure_recorded [OF a b, of "\<lambda>v. 0"] a b show ?thesis
    by blast
qed

subsection \<open>The report and its time stamp\<close>

lemma py_join_head: "py_join sep (x # y # ys) = x @ sep @ py_join sep (y # ys)"
  by simp

lemma generate_summary_shape:
  "generate_summary now info =
     (case tools_section info of
        Inl e \<Rightarrow> Inl e
      | Inr tools \<Rightarrow>
          Inr (report_head @ now @ CHR 0x0A #
               py_join [CHR 0x0A]
                 ([''''] @ requested_section info @ modified_section info @ tools @
                  commands_section info @ errors_section info @ statistics_section info @
                  [banner])))"
  by (simp add: generate_summary_def summary_lines_def report_head_def split: sum.splits)

text \<open>
  Claim C6. Two renderings of the same facts differ in the time stamp only: either both
  raise the same error, or both are the three banner lines, \<^verbatim>\<open>Generated: \<close> followed by
  the time stamp of the rendering, and one and the same remaining text. With the same time
  stamp the two texts are equal.
\<close>

theorem render_differs_in_timestamp_only:
  "(\<forall>e. generate_summary t1 info = Inl e \<longleftrightarrow> generate_summary t2 info = Inl e) \<and>
   (\<forall>s1 s2. generate_summary t1 info = Inr s1 \<and> generate_summary t2 info = Inr s2 \<longrightarrow>
      (\<exists>rest. s1 = report_head @ t1 @ CHR 0x0A # rest \<and>
              s2 = report_head @ t2 @ CHR 0x0A # rest)) \<and>
   (t1 = t2 \<longrightarrow> generate_summary t1 info = generate_summary t2 info)"
  by (auto simp: generate_summary_shape split: sum.splits)

text \<open>The facts of a small session, rendered at two times.\<close>

theorem render_differs_in_timestamp_only_witness:
  "\<exists>s1 s2 rest.
     generate_summary ''2026-01-01 10:00:00'' sample_info = Inr s1 \<and>
     generate_summary ''2026-01-02 11:30:00'' sample_info = Inr s2 \<and>
     s1 = report_head @ ''2026-01-01 10:00:00'' @ CHR 0x0A # rest \<and>
     s2 = report_head @ ''2026-01-02 11:30:00'' @ CHR 0x0A # rest"
proof -
  have "case generate_summary ''2026-01-01 10:00:00'' sample_info of
          Inl e \<Rightarrow> False | Inr v \<Rightarrow> True"
    by code_simp
  then obtain s1 where s1: "generate_summary ''2026-01-01 10:00:00'' sample_info = Inr s1"
    using result_cases by blast
  have "case generate_summary ''2026-01-02 11:30:00'' sample_info of
          Inl e \<Rightarrow> False | Inr v \<Rightarrow> True"
    by code_simp
  then obtain s2 where s2: "generate_summary ''2026-01-02 11:30:00'' sample_info = Inr s2"
    using result_cases by blast
  from render_differs_in_timestamp_only
         [of "''2026-01-01 10:00:00''" sample_info "''2026-01-02 11:30:00''"] s1 s2
  show ?thesis
    by blast
qed

subsection \<open>The reader of the transcript\<close>

lemma parse_lines_eq:
  "parse_lines decode messages ls =
     messages @ List.map_filter (line_record decode) (takeWhile (\<lambda>l. \<not> line_stops decode l) ls)"
proof (induction ls arbitrary: messages)
  case (Cons l ls)
  show ?case
    by (cases "decode (py_strip l)")
       (auto simp: Cons.IH line_record_def line_stops_def Let_def)
qed simp

lemma file_lines_line:
  "\<forall>c \<in> set a. c \<noteq> CHR 0x0A \<and> c \<noteq> CHR 0x0D \<Longrightarrow>
   file_lines (a @ CHR 0x0A # rest) = a # file_lines rest"
proof (induction a)
  case (Cons c a)
  then show ?case by simp
qed simp

lemma dropWhile_replicate_same:
  "\<not> P c \<Longrightarrow> dropWhile P (replicate n c) = replicate n c"
  by (cases n) simp_all

lemma py_strip_replicate:
  "\<not> py_isspace c \<Longrightarrow> py_strip (replicate n c) = replicate n c"
  by (simp add: py_strip_def dropWhile_replicate_same)

lemma long_integer_facts:
  "py_strip long_integer = long_integer"
  "long_integer \<noteq> []" "long_integer \<noteq> ''1''" "long_integer \<noteq> ''2''"
  "\<forall>c \<in> set long_integer. c \<noteq> CHR 0x0A \<and> c \<noteq> CHR 0x0D"
proof -
  have "\<not> py_isspace CHR ''7''"
    by code_simp
  then show "py_strip long_integer = long_integer"
    by (simp add: long_integer_def py_strip_replicate)
  have l: "length long_integer = 4301"
    by (simp add: long_integer_def)
  then show "long_integer \<noteq> []" "long_integer \<noteq> ''1''" "long_integer \<noteq> ''2''"
    by (auto dest: arg_cong [where f = length])
  show "\<forall>c \<in> set long_integer. c \<noteq> CHR 0x0A \<and> c \<noteq> CHR 0x0D"
    by (simp add: long_integer_def)
qed

lemma sample_lines:
  "file_lines (''1'' @ [CHR 0x0A] @ long_integer @ [CHR 0x0A] @ ''2'' @ [CHR 0x0A]) =
     [''1'', long_integer, ''2'', []]"
proof -
  have "file_lines (long_integer @ CHR 0x0A # rest) = long_integer # file_lines rest" for rest
    by (rule file_lines_line) (rule long_integer_facts)
  then show ?thesis by simp
qed

lemma sample_decoder_lines:
  "line_record sample_decoder ''1'' = Some (JInt 1)"
  "line_record sample_decoder long_integer = None"
  "line_record sample_decoder ''2'' = Some (JInt 2)"
  "line_record sample_decoder [] = None"
  "\<not> line_stops sample_decoder ''1''"
  "line_stops sample_decoder long_integer"
proof -
  have s: "py_strip ''1'' = ''1''" "py_strip ''2'' = ''2''" "py_strip [] = []"
    by code_simp+
  show "line_record sample_decoder ''1'' = Some (JInt 1)"
    "line_record sample_decoder long_integer = None"
    "line_record sample_decoder ''2'' = Some (JInt 2)"
    "line_record sample_decoder [] = None"
    "\<not> line_stops sample_decoder ''1''"
    "line_stops sample_decoder long_integer"
    using long_integer_facts(2-4)
    by (simp_all add: line_record_def line_stops_def sample_decoder_def table_decoder_def s
        long_integer_facts(1))
qed

text \<open>
  The reader on the files it reads in full. When the file cannot be opened the result is
  the empty list. When it opens, the result holds, in line order, one record for each
  non-blank line that the decoder accepts, up to the first line on which the decoder raises
  an exception other than \<^verbatim>\<open>JSONDecodeError\<close>; a line with a \<^verbatim>\<open>JSONDecodeError\<close> is skipped
  and the read goes on. When the decoder raises nothing else, every line of the file is
  read, as claim C4 says.
\<close>

theorem parse_transcript_reads_lines:
  "(\<forall>e. open_read fs path = Inl e \<longrightarrow> parse_transcript decode fs path = []) \<and>
   (\<forall>text. open_read fs path = Inr text \<longrightarrow>
      parse_transcript decode fs path =
        List.map_filter (line_record decode)
          (takeWhile (\<lambda>l. \<not> line_stops decode l) (file_lines text))) \<and>
   (\<forall>text. open_read fs path = Inr text \<and> (\<forall>l \<in> set (file_lines text). \<not> line_stops decode l) \<longrightarrow>
      parse_transcript decode fs path = List.map_filter (line_record decode) (file_lines text))"
proof -
  have all: "takeWhile (\<lambda>l. \<not> line_stops decode l) ls = ls"
    if "\<forall>l \<in> set ls. \<not> line_stops decode l" for ls
    using that by (simp add: takeWhile_eq_all_conv)
  have 1: "\<forall>e. open_read fs path = Inl e \<longrightarrow> parse_transcript decode fs path = []"
    by (simp add: parse_transcript_def)
  have 2: "\<forall>text. open_read fs path = Inr text \<longrightarrow>
      parse_transcript decode fs path =
        List.map_filter (line_record decode)
          (takeWhile (\<lambda>l. \<not> line_stops decode l) (file_lines text))"
    by (simp add: parse_transcript_def parse_lines_eq)
  have 3: "\<forall>text. open_read fs path = Inr text \<and>
        (\<forall>l \<in> set (file_lines text). \<not> line_stops decode l) \<longrightarrow>
      parse_transcript decode fs path = List.map_filter (line_record decode) (file_lines text)"
    using 2 all by metis
  from 1 2 3 show ?thesis
    by blast
qed

text \<open>
  Claim C4, at the input where the code departs from it. The second line of the file is an
  integer of 4301 digits: the decoder raises \<^verbatim>\<open>ValueError\<close> there, which the handler
  inside the loop does not catch (the handler of the archive in \<^verbatim>\<open>main\<close> does), the read
  ends, and the result is the record of the first line alone. The claim asks for the line
  to be skipped and for the record of the third line, which parses.
\<close>

theorem reading_stops_at_other_exception:
  "parse_transcript sample_decoder sample_files (JStr ''t.jsonl'') = [JInt 1] \<and>
   List.map_filter (line_record sample_decoder)
     (file_lines (''1'' @ [CHR 0x0A] @ long_integer @ [CHR 0x0A] @ ''2'' @ [CHR 0x0A])) =
     [JInt 1, JInt 2]"
  by (simp add: parse_transcript_def sample_files_def parse_lines_eq sample_lines
      sample_decoder_lines del: append.simps)

text \<open>
  A file with a line that is not JSON and a blank line between two lines that parse, and a
  path with no file.
\<close>

theorem parse_transcript_reads_lines_witness:
  "parse_transcript (table_decoder [(''1'', Inr (JInt 1)), (''2'', Inr (JInt 2))]) notes_files
     (JStr ''u.jsonl'') = [JInt 1, JInt 2] \<and>
   parse_transcript (table_decoder [(''1'', Inr (JInt 1)), (''2'', Inr (JInt 2))]) notes_files
     (JStr ''missing.jsonl'') = []"
proof -
  let ?d = "table_decoder [(''1'', Inr (JInt 1)), (''2'', Inr (JInt 2))]"
  let ?text = "[CHR ''1'', CHR 0x0A] @ ''not json'' @ [CHR 0x0A, CHR 0x0A, CHR ''2'', CHR 0x0A]"
  note t = parse_transcript_reads_lines [of notes_files _ ?d]
  have o: "open_read notes_files (JStr ''u.jsonl'') = Inr ?text"
    by code_simp
  have n: "\<forall>l \<in> set (file_lines ?text). \<not> line_stops ?d l"
    by code_simp
  have r: "List.map_filter (line_record ?d) (file_lines ?text) = [JInt 1, JInt 2]"
    by code_simp
  have m: "open_read notes_files (JStr ''missing.jsonl'') = Inl OSError"
    by code_simp
  from t [of "JStr ''u.jsonl''"] o n r
  have "parse_transcript ?d notes_files (JStr ''u.jsonl'') = [JInt 1, JInt 2]"
    by metis
  moreover from t [of "JStr ''missing.jsonl''"] m
  have "parse_transcript ?d notes_files (JStr ''missing.jsonl'') = []"
    by blast
  ultimately show ?thesis
    by blast
qed

subsection \<open>The hook on a missing transcript\<close>

lemma exit_status_finish: "exit_status (finish fs out err) = 0"
  by (simp add: finish_def)

lemma main_exits_zero: "exit_status (main env args input fs) = 0"
  by (simp add: main_def process_transcript_def exit_status_finish Let_def
      split: sum.splits json.splits)





end
